theory Spec2Isabelle
  imports Complex_Main "HOL-Library.Word"
begin

section \<open>s3test: sequential range reads against an S3 file system\<close>

text \<open>
  The program under study is the single file \<^verbatim>\<open>s3test.go\<close>: \<^verbatim>\<open>main\<close> looks up the size of
  a remote object, divides it by the configured read size, and calls \<^verbatim>\<open>readFrom\<close> once
  per multiple of the read size; \<^verbatim>\<open>readFrom\<close> opens the object, seeks, and calls
  \<^verbatim>\<open>Read\<close> in a loop until the buffer is full.

  Modelling decisions.
  \<^item> Go's \<^verbatim>\<open>uint64\<close> is \<^typ>\<open>64 word\<close>; \<^verbatim>\<open>+\<close> and \<^verbatim>\<open>*\<close> wrap. Go's \<^verbatim>\<open>int\<close> and
    \<^verbatim>\<open>int64\<close> are taken to be 64 bits wide and are carried as their bit patterns, so
    the conversions \<^verbatim>\<open>uint64(n)\<close> and \<^verbatim>\<open>int64(offset)\<close> are the identity.
  \<^item> The S3 client, the clock and standard output are the environment. Every call
    into the environment is recorded as an event; the environment answers a call as
    a function of the events so far, so a simulated transport ("the third open
    fails", "at most 7 bytes per read") is an ordinary value of type \<open>env\<close>.
  \<^item> An error return is a value, a run-time panic is a value, and a loop that may
    not come back (a transport that keeps returning 0 bytes) yields \<open>None\<close>.
  \<^item> A \<^verbatim>\<open>float64\<close> expression is kept as the tree of operations the code performs;
    \<open>fval\<close> gives its value in exact real arithmetic (rounding is not modelled).
  \<^item> The byte buffer is represented by its length. \<^verbatim>\<open>make([]byte, size)\<close> panics
    when \<open>size\<close> is above the limit \<open>maxAlloc\<close> of the Go runtime; below it the
    allocation is taken to succeed (running out of memory ends the process without a
    panic and is outside the model).
  \<^item> Whether the value returned by \<^verbatim>\<open>Open\<close> implements \<^verbatim>\<open>io.ReadSeeker\<close> is for the
    environment to say; the type assertion panics when it does not.
\<close>

subsection \<open>Values, events and the environment\<close>

type_synonym u64 = "64 word"

type_synonym handle = nat

datatype error = Error string

text \<open>The \<^verbatim>\<open>float64\<close> expressions of the two \<^verbatim>\<open>Printf\<close> calls.\<close>

datatype float_expr =
    OfUint u64                    \<comment> \<open>\<^verbatim>\<open>float64(x)\<close> for a \<^verbatim>\<open>uint64\<close>\<close>
  | Seconds int                   \<comment> \<open>\<^verbatim>\<open>d.Seconds()\<close> for a duration of so many nanoseconds\<close>
  | Const int                     \<comment> \<open>an untyped integer constant\<close>
  | Quot float_expr float_expr    \<comment> \<open>\<^verbatim>\<open>a / b\<close>\<close>

fun fval :: "float_expr \<Rightarrow> real" where
  "fval (OfUint w) = real (unat w)"
| "fval (Seconds d) = real_of_int d / 1000000000"
| "fval (Const c) = real_of_int c"
| "fval (Quot a b) = fval a / fval b"

datatype arg = U u64 | F float_expr

datatype event =
    EvNow int                                      \<comment> \<open>a reading of the clock, in nanoseconds\<close>
  | EvConnect "error option"                       \<comment> \<open>\<^verbatim>\<open>connect(ctx)\<close>\<close>
  | EvStat string "error + u64"                    \<comment> \<open>\<^verbatim>\<open>fs.Stat(name)\<close>, then \<^verbatim>\<open>Size()\<close>\<close>
  | EvOpen string "handle option" "error option"   \<comment> \<open>\<^verbatim>\<open>fs.Open(name)\<close>\<close>
  | EvSeek handle u64 "error option"               \<comment> \<open>\<^verbatim>\<open>Seek(offset, 0)\<close>\<close>
  | EvRead handle u64 u64 "error option"           \<comment> \<open>\<^verbatim>\<open>Read(p)\<close>: \<^verbatim>\<open>len(p)\<close>, \<^verbatim>\<open>n\<close>, \<^verbatim>\<open>err\<close>\<close>
  | EvClose handle                                 \<comment> \<open>\<^verbatim>\<open>Close()\<close>\<close>
  | EvPrintf string "arg list"                     \<comment> \<open>\<^verbatim>\<open>fmt.Printf(format, args...)\<close>\<close>

type_synonym trace = "event list"

record env =
  e_now :: "trace \<Rightarrow> int"
  e_connect :: "trace \<Rightarrow> error option"
  e_stat :: "trace \<Rightarrow> string \<Rightarrow> error + u64"
  e_open :: "trace \<Rightarrow> string \<Rightarrow> handle option \<times> error option"
  e_seek :: "trace \<Rightarrow> handle \<Rightarrow> u64 \<Rightarrow> error option"
  e_read :: "trace \<Rightarrow> handle \<Rightarrow> u64 \<Rightarrow> u64 \<times> error option"
  e_seekable :: "handle \<Rightarrow> bool"     \<comment> \<open>the file behind the handle implements \<^verbatim>\<open>io.ReadSeeker\<close>\<close>

datatype panic =
    NilDereference        \<comment> \<open>a method of a nil interface value\<close>
  | InterfaceConversion   \<comment> \<open>a failed type assertion\<close>
  | MakeSliceLen          \<comment> \<open>\<^verbatim>\<open>makeslice: len out of range\<close>\<close>
  | DivideByZero          \<comment> \<open>integer division by zero\<close>
  | PanicErr error        \<comment> \<open>\<^verbatim>\<open>panic(err)\<close>\<close>

text \<open>
  The largest number of bytes \<^verbatim>\<open>make([]byte, n)\<close> accepts: the constant \<^verbatim>\<open>maxAlloc\<close> of
  the Go runtime, \<open>2^48\<close> on the 64-bit platforms with 48 address bits. A larger \<open>n\<close>,
  and any \<open>n\<close> that is no \<^verbatim>\<open>int\<close>, is a run-time panic. The theorems below use the
  name, not the number.
\<close>

definition maxAlloc :: u64 where
  "maxAlloc = 281474976710656"

datatype outcome = Returned "error option" | Panicked panic

datatype exit = Finished | OsExit nat | Crashed panic

text \<open>
  The exit status of the process: 0 when \<^verbatim>\<open>main\<close> returns, the argument of
  \<^verbatim>\<open>os.Exit\<close>, and 2 when a panic is not recovered.
\<close>

fun exit_status :: "exit \<Rightarrow> nat" where
  "exit_status Finished = 0"
| "exit_status (OsExit c) = c"
| "exit_status (Crashed p) = 2"

subsection \<open>The format strings\<close>

definition usage_fmt :: string where
  "usage_fmt = ''Please provide a filename, and optionally --endpoint= and --bucket= args\<newline>''"

definition progress_fmt :: string where
  "progress_fmt = ''Read %d bytes at offset %d in %.3fs (%.1f%%)\<newline>''"

definition summary_fmt :: string where
  "summary_fmt = ''Read %d bytes in %.3f seconds at %f Mbps\<newline>''"

subsection \<open>readFrom\<close>

text \<open>
  The loop of \<^verbatim>\<open>readFrom\<close>; \<open>sz\<close> is the parameter \<^verbatim>\<open>size\<close>. The loop is entered
  with \<^verbatim>\<open>curOffset = 0\<close> and goes round again only when \<^verbatim>\<open>curOffset < size\<close>, so
  the slice \<^verbatim>\<open>b[curOffset:]\<close> is always in range and has \<^verbatim>\<open>size - curOffset\<close> bytes.
  The result is the error of the failing \<^verbatim>\<open>Read\<close>, if any, the cursor and the trace.
\<close>

partial_function (option) readLoop ::
  "env \<Rightarrow> handle \<Rightarrow> u64 \<Rightarrow> u64 \<Rightarrow> trace \<Rightarrow> (error option \<times> u64 \<times> trace) option"
where
  "readLoop E f sz curOffset tr =
     (let len = sz - curOffset;
          n = fst (e_read E tr f len);
          err = snd (e_read E tr f len);
          tr' = tr @ [EvRead f len n err]
      in case err of
           Some e \<Rightarrow> Some (Some e, curOffset, tr')
         | None \<Rightarrow>
             if curOffset + n \<ge> sz then Some (None, curOffset + n, tr')
             else readLoop E f sz (curOffset + n) tr')"

declare readLoop.simps [code]

text \<open>
  \<^verbatim>\<open>readFrom\<close>. The statement \<^verbatim>\<open>defer f.Close()\<close> comes before the test of
  \<^verbatim>\<open>err\<close>. It evaluates the method value \<^verbatim>\<open>f.Close\<close>, which panics when \<^verbatim>\<open>f\<close> is
  the nil interface value; otherwise \<^verbatim>\<open>Close\<close> runs when the function is left, after
  the result is set and after the progress line is printed, and also when the
  function is left by a panic of the type assertion or of \<^verbatim>\<open>make\<close>.
\<close>

definition readFrom ::
  "env \<Rightarrow> string \<Rightarrow> u64 \<Rightarrow> u64 \<Rightarrow> u64 \<Rightarrow> trace \<Rightarrow> (outcome \<times> trace) option"
where
  "readFrom E filename offset sz totalsize tr =
     (let start = e_now E tr;
          tr1 = tr @ [EvNow start];
          f = fst (e_open E tr1 filename);
          err = snd (e_open E tr1 filename);
          tr2 = tr1 @ [EvOpen filename f err]
      in case f of
           None \<Rightarrow> Some (Panicked NilDereference, tr2)
         | Some h \<Rightarrow>
            (case err of
               Some e \<Rightarrow> Some (Returned (Some e), tr2 @ [EvClose h])
             | None \<Rightarrow>
                if \<not> e_seekable E h
                then Some (Panicked InterfaceConversion, tr2 @ [EvClose h])
                else
                (let serr = e_seek E tr2 h offset;
                     tr3 = tr2 @ [EvSeek h offset serr]
                 in case serr of
                      Some e \<Rightarrow> Some (Returned (Some e), tr3 @ [EvClose h])
                    | None \<Rightarrow>
                       if maxAlloc < sz
                       then Some (Panicked MakeSliceLen, tr3 @ [EvClose h])
                       else
                       (case readLoop E h sz 0 tr3 of
                          None \<Rightarrow> None
                        | Some (rerr, curOffset, tr4) \<Rightarrow>
                           (case rerr of
                              Some e \<Rightarrow> Some (Returned (Some e), tr4 @ [EvClose h])
                            | None \<Rightarrow>
                               (let now = e_now E tr4;
                                    tr5 = tr4 @ [EvNow now];
                                    tr6 = tr5 @ [EvPrintf progress_fmt
                                      [U curOffset, U offset, F (Seconds (now - start)),
                                       F (Quot (OfUint (100 * offset)) (OfUint totalsize))]]
                                in Some (Returned None, tr6 @ [EvClose h])))))))"

subsection \<open>main\<close>

text \<open>
  The loop of \<^verbatim>\<open>main\<close>. The result is the panic that ended it, if any, and the trace.
\<close>

function mainLoop ::
  "env \<Rightarrow> string \<Rightarrow> u64 \<Rightarrow> u64 \<Rightarrow> u64 \<Rightarrow> trace \<Rightarrow> (panic option \<times> trace) option"
where
  "mainLoop E filename readSize readCount i tr =
     (if i < readCount then
        (case readFrom E filename (readSize * i) readSize (readSize * readCount) tr of
           None \<Rightarrow> None
         | Some (Panicked p, tr') \<Rightarrow> Some (Some p, tr')
         | Some (Returned (Some e), tr') \<Rightarrow> Some (Some (PanicErr e), tr')
         | Some (Returned None, tr') \<Rightarrow> mainLoop E filename readSize readCount (i + 1) tr')
      else Some (None, tr))"
  by pat_completeness auto
termination
proof (relation "measure (\<lambda>(E, filename, readSize, readCount, i, tr). unat readCount - unat i)")
  show "wf (measure (\<lambda>(E :: env, filename :: string, readSize :: u64, readCount :: u64,
                        i :: u64, tr :: trace). unat readCount - unat i))"
    by simp
next
  fix readCount i :: u64
  assume lt: "i < readCount"
  then have "unat i < unat readCount"
    by (simp add: word_less_nat_alt)
  moreover have "unat readCount < 2 ^ 64"
    using unsigned_less [of readCount] by simp
  ultimately have "unat i + 1 < 2 ^ 64" and "unat i < unat readCount"
    by simp_all
  then have "unat (i + 1) = unat i + 1" and "unat i < unat readCount"
    by (simp_all add: unat_word_ariths)
  then show "\<And>E filename readSize tr x2 x y x1 x2a.
      ((E :: env, filename :: string, readSize :: u64, readCount, i + 1, y :: trace),
       (E, filename, readSize, readCount, i, tr))
      \<in> measure (\<lambda>(E, filename, readSize, readCount, i, tr). unat readCount - unat i)"
    by simp
qed

declare mainLoop.simps [simp del]

text \<open>
  The offsets the loop header runs through: \<^verbatim>\<open>readSize*i\<close> for \<^verbatim>\<open>i\<close> from 0 up to, not
  including, \<^verbatim>\<open>readCount\<close>; the \<open>i\<close>-th call of \<open>readFrom\<close> gets the \<open>i\<close>-th of them.
\<close>

definition plan_offsets :: "u64 \<Rightarrow> u64 \<Rightarrow> u64 list" where
  "plan_offsets readSize readCount = map (\<lambda>i. readSize * word_of_nat i) [0..<unat readCount]"

text \<open>
  \<^verbatim>\<open>main\<close>, from the parsed command line: \<open>filename\<close> is \<^verbatim>\<open>flag.Arg(0)\<close> and
  \<open>readsize\<close> the value of \<^verbatim>\<open>--readsize\<close>. The quotient \<^verbatim>\<open>filesize / readSize\<close>
  panics when the divisor is 0.
\<close>

definition main :: "env \<Rightarrow> string \<Rightarrow> u64 \<Rightarrow> (exit \<times> trace) option" where
  "main E filename readsize =
     (if length filename = 0 then Some (OsExit 1, [EvPrintf usage_fmt []])
      else
       (let cerr = e_connect E [];
            tr1 = [EvConnect cerr]
        in case cerr of
             Some e \<Rightarrow> Some (Crashed (PanicErr e), tr1)
           | None \<Rightarrow>
              (let st = e_stat E tr1 filename;
                   tr2 = tr1 @ [EvStat filename st]
               in case st of
                    Inl e \<Rightarrow> Some (Crashed (PanicErr e), tr2)
                  | Inr filesize \<Rightarrow>
                     (let readSize = readsize
                      in if readSize = 0 then Some (Crashed DivideByZero, tr2)
                         else
                          (let readCount = filesize div readSize;
                               start = e_now E tr2;
                               tr3 = tr2 @ [EvNow start]
                           in case mainLoop E filename readSize readCount 0 tr3 of
                                None \<Rightarrow> None
                              | Some (Some p, tr4) \<Rightarrow> Some (Crashed p, tr4)
                              | Some (None, tr4) \<Rightarrow>
                                 (let now = e_now E tr4;
                                      tr5 = tr4 @ [EvNow now]
                                  in Some (Finished, tr5 @ [EvPrintf summary_fmt
                                       [U (readSize * readCount), F (Seconds (now - start)),
                                        F (Quot (Quot (OfUint (readSize * readCount * 8))
                                                      (Seconds (now - start)))
                                                (Const 1000000))]])))))))"

subsection \<open>Reading a trace\<close>

fun seek_of :: "event \<Rightarrow> u64 list" where
  "seek_of (EvSeek h off err) = [off]"
| "seek_of ev = []"

definition seek_offsets :: "trace \<Rightarrow> u64 list" where
  "seek_offsets tr = concat (map seek_of tr)"

fun read_of :: "event \<Rightarrow> nat list" where
  "read_of (EvRead h len n err) = [unat n]"
| "read_of ev = []"

definition bytes_read :: "trace \<Rightarrow> nat" where
  "bytes_read tr = sum_list (concat (map read_of tr))"

fun close_of :: "event \<Rightarrow> handle list" where
  "close_of (EvClose h) = [h]"
| "close_of ev = []"

definition closes :: "trace \<Rightarrow> handle list" where
  "closes tr = concat (map close_of tr)"

fun progress_of :: "event \<Rightarrow> arg list list" where
  "progress_of (EvPrintf fmt args) = (if fmt = progress_fmt then [args] else [])"
| "progress_of ev = []"

definition progress_lines :: "trace \<Rightarrow> arg list list" where
  "progress_lines tr = concat (map progress_of tr)"

fun summary_of :: "event \<Rightarrow> arg list list" where
  "summary_of (EvPrintf fmt args) = (if fmt = summary_fmt then [args] else [])"
| "summary_of ev = []"

definition summary_lines :: "trace \<Rightarrow> arg list list" where
  "summary_lines tr = concat (map summary_of tr)"

text \<open>The events that reach the object store: everything but the clock and the output.\<close>

fun is_io :: "event \<Rightarrow> bool" where
  "is_io (EvNow t) = False"
| "is_io (EvPrintf fmt args) = False"
| "is_io ev = True"

fun is_read :: "event \<Rightarrow> bool" where
  "is_read (EvRead h len n err) = True"
| "is_read ev = False"

text \<open>Events on an opened object.\<close>

fun is_file_io :: "event \<Rightarrow> bool" where
  "is_file_io (EvOpen name h err) = True"
| "is_file_io (EvSeek h off err) = True"
| "is_file_io (EvRead h len n err) = True"
| "is_file_io (EvClose h) = True"
| "is_file_io ev = False"

text \<open>The trace of a run that came back, and the empty trace otherwise.\<close>

fun trace_of :: "('a \<times> trace) option \<Rightarrow> trace" where
  "trace_of None = []"
| "trace_of (Some (x, tr)) = tr"

text \<open>The error result of a call, for the calls that have one.\<close>

fun err_of :: "event \<Rightarrow> error option" where
  "err_of (EvOpen name h err) = err"
| "err_of (EvSeek h off err) = err"
| "err_of (EvRead h len n err) = err"
| "err_of ev = None"

text \<open>The offset and the percentage expression of a progress line.\<close>

fun pct_of :: "arg list \<Rightarrow> (u64 \<times> float_expr) list" where
  "pct_of [U cur, U off, F d, F q] = [(off, q)]"
| "pct_of args = []"

definition progress_pcts :: "trace \<Rightarrow> (u64 \<times> float_expr) list" where
  "progress_pcts tr = concat (map pct_of (progress_lines tr))"

text \<open>The byte total of a summary line.\<close>

fun total_of :: "arg list \<Rightarrow> u64 list" where
  "total_of (U n # args) = [n]"
| "total_of args = []"

definition summary_totals :: "trace \<Rightarrow> u64 list" where
  "summary_totals tr = concat (map total_of (summary_lines tr))"

text \<open>The percentages of the progress lines of a trace, in exact arithmetic.\<close>

definition pct_values :: "trace \<Rightarrow> real list" where
  "pct_values tr = map (\<lambda>p. fval (snd p)) (progress_pcts tr)"

text \<open>
  For comparison, the percentages as the specification words them in its data model:
  \<open>100 * offset / fileSize\<close> for the offset of each progress line (this definition
  follows the specification, not the code).
\<close>

definition file_fraction_pcts :: "u64 \<Rightarrow> trace \<Rightarrow> real list" where
  "file_fraction_pcts filesize tr =
     map (\<lambda>p. 100 * real (unat (fst p)) / real (unat filesize)) (progress_pcts tr)"

subsection \<open>Well-behaved environments\<close>

text \<open>
  \<open>reads_ok\<close>: every \<^verbatim>\<open>Read\<close> into a non-empty buffer returns no error and a positive
  number of bytes that fits the buffer (\<^verbatim>\<open>io.Reader\<close>: \<^verbatim>\<open>0 <= n <= len(p)\<close>).
\<close>

definition reads_ok :: "env \<Rightarrow> bool" where
  "reads_ok E \<longleftrightarrow>
     (\<forall>tr h len. 0 < len \<longrightarrow>
        snd (e_read E tr h len) = None \<and> 0 < fst (e_read E tr h len)
        \<and> fst (e_read E tr h len) \<le> len)"

text \<open>
  \<open>fault_free\<close>: no call fails; the object \<open>filename\<close> has \<open>filesize\<close> bytes, every
  \<^verbatim>\<open>Open\<close> of it yields a handle, and the handles implement \<^verbatim>\<open>io.ReadSeeker\<close>.
\<close>

definition fault_free :: "env \<Rightarrow> string \<Rightarrow> u64 \<Rightarrow> bool" where
  "fault_free E filename filesize \<longleftrightarrow>
     e_connect E [] = None
     \<and> (\<forall>tr. e_stat E tr filename = Inr filesize)
     \<and> (\<forall>tr. \<exists>h. e_open E tr filename = (Some h, None))
     \<and> (\<forall>h. e_seekable E h)
     \<and> (\<forall>tr h off. e_seek E tr h off = None)
     \<and> reads_ok E"

text \<open>
  \<open>cursor_reads E f sz cur tr rs\<close>: the events \<open>rs\<close>, which follow the trace \<open>tr\<close>, are
  the \<^verbatim>\<open>Read\<close> calls on \<open>f\<close> that walk a cursor from \<open>cur\<close> to exactly \<open>sz\<close>. Each call
  asks for the \<open>sz - cur\<close> bytes still missing; its result is the answer of the
  transport \<open>E\<close> to that very call, after the events before it; the answer is no error
  and a positive number of bytes that fits; and the next call starts from the cursor
  advanced by that number.
\<close>

fun cursor_reads :: "env \<Rightarrow> handle \<Rightarrow> u64 \<Rightarrow> u64 \<Rightarrow> trace \<Rightarrow> trace \<Rightarrow> bool" where
  "cursor_reads E f sz cur tr [] = (cur = sz)"
| "cursor_reads E f sz cur tr (EvRead h len n err # rs) =
     (h = f \<and> cur < sz \<and> len = sz - cur
      \<and> n = fst (e_read E tr f len) \<and> err = snd (e_read E tr f len)
      \<and> err = None \<and> 0 < n \<and> n \<le> len
      \<and> cursor_reads E f sz (cur + n) (tr @ [EvRead h len n err]) rs)"
| "cursor_reads E f sz cur tr (ev # rs) = False"

text \<open>
  What \<open>readLoop\<close> leaves behind whenever it comes back: it has added read events only,
  and its error result is that of the last one; when no read failed, the cursor is the
  start value plus the bytes returned, and it has reached \<open>sz\<close>.
\<close>

definition loop_post :: "u64 \<Rightarrow> u64 \<Rightarrow> trace \<Rightarrow> error option \<times> u64 \<times> trace \<Rightarrow> bool" where
  "loop_post sz curOffset tr r \<longleftrightarrow>
     (\<exists>rs. snd (snd r) = tr @ rs \<and> rs \<noteq> [] \<and> list_all is_read rs
        \<and> err_of (last rs) = fst r
        \<and> (fst r = None \<longrightarrow> fst (snd r) = curOffset + word_of_nat (bytes_read rs)
               \<and> sz \<le> fst (snd r)))"

subsection \<open>Simulated transports\<close>

text \<open>
  A transport that never fails and hands out at most \<open>chunk\<close> bytes per \<^verbatim>\<open>Read\<close>; the
  object has \<open>filesize\<close> bytes, and the clock advances by one millisecond per event.
\<close>

definition chunked :: "u64 \<Rightarrow> u64 \<Rightarrow> env" where
  "chunked filesize chunk =
     \<lparr> e_now = (\<lambda>tr. 1000000 * int (length tr)),
       e_connect = (\<lambda>tr. None),
       e_stat = (\<lambda>tr name. Inr filesize),
       e_open = (\<lambda>tr name. (Some 1, None)),
       e_seek = (\<lambda>tr h off. None),
       e_read = (\<lambda>tr h len. (if chunk < len then chunk else len, None)),
       e_seekable = (\<lambda>h. True) \<rparr>"

fun is_open :: "event \<Rightarrow> bool" where
  "is_open (EvOpen name h err) = True"
| "is_open ev = False"

text \<open>
  Fault injection: \<open>open_fails_after k E\<close> is \<open>E\<close>, except that the \<^verbatim>\<open>Open\<close> call that
  follows exactly \<open>k\<close> earlier ones fails, returning a nil handle and an error;
  \<open>read_fails_after k E\<close> does the same to \<^verbatim>\<open>Read\<close>.
\<close>

definition open_fails_after :: "nat \<Rightarrow> env \<Rightarrow> env" where
  "open_fails_after k E =
     E\<lparr> e_open := (\<lambda>tr name.
            if length (filter is_open tr) = k then (None, Some (Error ''open failed''))
            else e_open E tr name) \<rparr>"

definition read_fails_after :: "nat \<Rightarrow> env \<Rightarrow> env" where
  "read_fails_after k E =
     E\<lparr> e_read := (\<lambda>tr h len.
            if length (filter is_read tr) = k then (0, Some (Error ''read failed''))
            else e_read E tr h len) \<rparr>"

text \<open>Environments in which the connection setup, or the metadata lookup, fails.\<close>

definition connect_fails :: "env \<Rightarrow> env" where
  "connect_fails E = E\<lparr> e_connect := (\<lambda>tr. Some (Error ''connect failed'')) \<rparr>"

definition stat_fails :: "env \<Rightarrow> env" where
  "stat_fails E = E\<lparr> e_stat := (\<lambda>tr name. Inl (Error ''stat failed'')) \<rparr>"

text \<open>
  \<open>with_clock c E\<close> is \<open>E\<close> with the clock \<open>c\<close>. With \<open>loop_of_one_second\<close> the clock
  reads 0 up to the start of the loop of \<^verbatim>\<open>main\<close> and one second from then on.
\<close>

definition with_clock :: "(trace \<Rightarrow> int) \<Rightarrow> env \<Rightarrow> env" where
  "with_clock c E = E\<lparr> e_now := c \<rparr>"

definition loop_of_one_second :: "trace \<Rightarrow> int" where
  "loop_of_one_second tr = (if length tr \<le> 2 then 0 else 1000000000)"

section \<open>Properties\<close>

subsection \<open>The read loop\<close>

lemma bytes_read_append: "bytes_read (xs @ ys) = bytes_read xs + bytes_read ys"
  by (simp add: bytes_read_def)

lemma bytes_read_Cons_read: "bytes_read (EvRead h len n err # rs) = unat n + bytes_read rs"
  by (simp add: bytes_read_def)

text \<open>
  With a transport that keeps the contract of \<^verbatim>\<open>io.Reader\<close> the loop comes back, by
  induction on the number of bytes still missing.
\<close>

lemma readLoop_fills:
  assumes ok: "reads_ok E"
  shows "curOffset < sz \<Longrightarrow>
     \<exists>rs. readLoop E f sz curOffset tr = Some (None, sz, tr @ rs) \<and> rs \<noteq> []
        \<and> cursor_reads E f sz curOffset tr rs
        \<and> bytes_read rs = unat sz - unat curOffset"
proof (induction "unat sz - unat curOffset" arbitrary: curOffset tr rule: less_induct)
  case less
  define len where "len = sz - curOffset"
  define n where "n = fst (e_read E tr f len)"
  define ev where "ev = EvRead f len n None"
  have cur_lt: "unat curOffset < unat sz"
    using less.prems by (simp add: word_less_nat_alt)
  have unat_len: "unat len = unat sz - unat curOffset"
    using less.prems by (simp add: len_def unat_sub)
  have len_pos: "0 < len"
    using cur_lt unat_len by (simp add: word_less_nat_alt)
  from ok len_pos have err: "snd (e_read E tr f len) = None" and npos: "0 < n" and nle: "n \<le> len"
    by (simp_all add: reads_ok_def n_def)
  have n_le: "unat n \<le> unat sz - unat curOffset" and n_pos: "0 < unat n"
    using nle npos unat_len by (simp_all add: word_le_nat_alt word_less_nat_alt)
  have "unat sz < 2 ^ 64"
    using unsigned_less [of sz] by simp
  with n_le cur_lt have "unat curOffset + unat n < 2 ^ 64"
    by simp
  then have unat_sum: "unat (curOffset + n) = unat curOffset + unat n"
    by (simp add: unat_word_ariths)
  have step: "readLoop E f sz curOffset tr =
      (if sz \<le> curOffset + n then Some (None, curOffset + n, tr @ [ev])
       else readLoop E f sz (curOffset + n) (tr @ [ev]))"
    by (subst readLoop.simps) (simp add: Let_def len_def [symmetric] n_def [symmetric] ev_def err)
  show ?case
  proof (cases "sz \<le> curOffset + n")
    case True
    then have "unat sz \<le> unat curOffset + unat n"
      by (simp add: word_le_nat_alt unat_sum)
    with n_le cur_lt have eq: "unat curOffset + unat n = unat sz"
      by simp
    then have full: "curOffset + n = sz"
      using unat_sum by (simp add: word_unat_eq_iff)
    have "cursor_reads E f sz curOffset tr [ev]"
      using less.prems npos nle full err by (simp add: ev_def len_def n_def)
    moreover have "bytes_read [ev] = unat sz - unat curOffset"
      using eq by (simp add: ev_def bytes_read_def)
    ultimately show ?thesis
      using True full by (intro exI [of _ "[ev]"]) (simp add: step)
  next
    case False
    then have lt: "curOffset + n < sz"
      by simp
    have dec: "unat sz - unat (curOffset + n) < unat sz - unat curOffset"
      using unat_sum n_pos cur_lt by simp
    from less.hyps [OF dec lt, of "tr @ [ev]"] obtain rs where
      rs: "readLoop E f sz (curOffset + n) ((tr @ [ev])) = Some (None, sz, (tr @ [ev]) @ rs)"
        "cursor_reads E f sz (curOffset + n) (tr @ [ev]) rs"
        "bytes_read rs = unat sz - unat (curOffset + n)"
      by blast
    have "bytes_read (ev # rs) = unat sz - unat curOffset"
      using rs(3) unat_sum n_le by (simp add: ev_def bytes_read_Cons_read)
    moreover have "cursor_reads E f sz curOffset tr (ev # rs)"
      using less.prems npos nle rs(2) err by (simp add: ev_def len_def n_def)
    ultimately show ?thesis
      using False rs(1) by (intro exI [of _ "ev # rs"]) (simp add: step)
  qed
qed

text \<open>Whenever the loop comes back, for any transport, by induction on its unfolding.\<close>

lemma readLoop_trace:
  assumes "readLoop E f sz curOffset tr = Some r"
  shows "loop_post sz curOffset tr r"
  using assms
proof (induction rule: readLoop.raw_induct [rotated 1, consumes 1])
  case (1 readLoop' E f sz curOffset tr r)
  let ?len = "sz - curOffset"
  let ?n = "fst (e_read E tr f ?len)"
  let ?err = "snd (e_read E tr f ?len)"
  let ?ev = "EvRead f ?len ?n ?err"
  note body = "1.hyps" [unfolded Let_def]
  show ?case
  proof (cases ?err)
    case (Some e)
    with body have "r = (Some e, curOffset, tr @ [?ev])"
      by simp
    then show ?thesis
      using Some by (simp add: loop_post_def)
  next
    case None
    show ?thesis
    proof (cases "sz \<le> curOffset + ?n")
      case True
      with body None have "r = (None, curOffset + ?n, tr @ [?ev])"
        by simp
      then show ?thesis
        using True None by (simp add: bytes_read_def loop_post_def)
    next
      case False
      with body None have "readLoop' E f sz (curOffset + ?n) (tr @ [?ev]) = Some r"
        by simp
      from "1.IH" [OF this] obtain rs where
        rs: "snd (snd r) = (tr @ [?ev]) @ rs" "list_all is_read rs"
          "fst r = None \<longrightarrow> fst (snd r) = curOffset + ?n + word_of_nat (bytes_read rs)
             \<and> sz \<le> fst (snd r)"
          "rs \<noteq> []" "err_of (last rs) = fst r"
        unfolding loop_post_def by auto
      have "bytes_read (?ev # rs) = unat ?n + bytes_read rs"
        by (simp add: bytes_read_Cons_read)
      then have eq: "curOffset + ?n + word_of_nat (bytes_read rs)
          = curOffset + word_of_nat (bytes_read (?ev # rs))"
        by simp
      have A: "snd (snd r) = tr @ (?ev # rs)"
        using rs(1) by simp
      have B: "?ev # rs \<noteq> []" "list_all is_read (?ev # rs)" "err_of (last (?ev # rs)) = fst r"
        using rs(2,4,5) by simp_all
      have C: "fst r = None \<longrightarrow>
          fst (snd r) = curOffset + word_of_nat (bytes_read (?ev # rs)) \<and> sz \<le> fst (snd r)"
      proof
        assume "fst r = None"
        with rs(3) have v: "fst (snd r) = curOffset + ?n + word_of_nat (bytes_read rs)"
          and le: "sz \<le> fst (snd r)"
          by blast+
        from v eq have "fst (snd r) = curOffset + word_of_nat (bytes_read (?ev # rs))"
          by (rule trans)
        then show "fst (snd r) = curOffset + word_of_nat (bytes_read (?ev # rs))
            \<and> sz \<le> fst (snd r)"
          using le by (rule conjI)
      qed
      show ?thesis
        unfolding loop_post_def using A B C by (intro exI [of _ "?ev # rs"] conjI)
    qed
  qed
qed

subsection \<open>Traces of readFrom and of the loop of main\<close>

lemma seek_offsets_append: "seek_offsets (xs @ ys) = seek_offsets xs @ seek_offsets ys"
  by (simp add: seek_offsets_def)

lemma closes_append: "closes (xs @ ys) = closes xs @ closes ys"
  by (simp add: closes_def)

lemma progress_lines_append: "progress_lines (xs @ ys) = progress_lines xs @ progress_lines ys"
  by (simp add: progress_lines_def)

lemma summary_lines_append: "summary_lines (xs @ ys) = summary_lines xs @ summary_lines ys"
  by (simp add: summary_lines_def)

lemma progress_pcts_append: "progress_pcts (xs @ ys) = progress_pcts xs @ progress_pcts ys"
  by (simp add: progress_pcts_def progress_lines_append)

lemma reads_project:
  assumes "list_all is_read rs"
  shows "seek_offsets rs = []" and "closes rs = []" and "progress_lines rs = []"
    and "summary_lines rs = []"
proof -
  have "\<And>ev. is_read ev \<Longrightarrow> seek_of ev = [] \<and> close_of ev = [] \<and> progress_of ev = []
      \<and> summary_of ev = []"
    by (case_tac ev) simp_all
  with assms show "seek_offsets rs = []" and "closes rs = []" and "progress_lines rs = []"
    and "summary_lines rs = []"
    by (induction rs)
      (simp_all add: seek_offsets_def closes_def progress_lines_def summary_lines_def)
qed

lemma progress_fmt_neq_summary_fmt: "progress_fmt \<noteq> summary_fmt"
  by (simp add: progress_fmt_def summary_fmt_def)

lemma readFrom_nil_handle:
  assumes "fst (e_open E (tr @ [EvNow (e_now E tr)]) filename) = None"
  shows "readFrom E filename offset sz totalsize tr =
    Some (Panicked NilDereference,
      tr @ [EvNow (e_now E tr),
            EvOpen filename None (snd (e_open E (tr @ [EvNow (e_now E tr)]) filename))])"
  using assms by (simp add: readFrom_def Let_def)

text \<open>
  Every way out of \<open>readFrom\<close> once \<^verbatim>\<open>Open\<close> has yielded a handle: an error of
  \<^verbatim>\<open>Open\<close>, the panic of the type assertion, an error of \<^verbatim>\<open>Seek\<close>, the panic of
  \<^verbatim>\<open>make\<close>, an error of a \<^verbatim>\<open>Read\<close>, and success.
\<close>

lemma readFrom_exits:
  assumes run: "readFrom E filename offset sz totalsize tr = Some (out, tr')"
    and h: "fst (e_open E (tr @ [EvNow (e_now E tr)]) filename) = Some h"
  shows "\<exists>mid. tr' = tr @ mid @ [EvClose h] \<and> mid \<noteq> [] \<and> closes mid = []
    \<and> (seek_offsets mid = [] \<or> seek_offsets mid = [offset])
    \<and> (out = Returned (err_of (last mid)) \<or> out = Panicked InterfaceConversion
        \<or> out = Panicked MakeSliceLen)
    \<and> (e_seekable E h \<and> sz \<le> maxAlloc \<longrightarrow> out = Returned (err_of (last mid)))"
proof -
  let ?t0 = "e_now E tr"
  let ?tr1 = "tr @ [EvNow ?t0]"
  let ?err = "snd (e_open E ?tr1 filename)"
  let ?tr2 = "?tr1 @ [EvOpen filename (Some h) ?err]"
  let ?opened = "[EvNow ?t0, EvOpen filename (Some h) ?err]"
  have opened: "closes ?opened = []" "seek_offsets ?opened = []"
    by (simp_all add: closes_def seek_offsets_def)
  show ?thesis
  proof (cases ?err)
    case (Some e)
    with run h have "out = Returned (Some e)" and "tr' = ?tr2 @ [EvClose h]"
      by (simp_all add: readFrom_def Let_def)
    then show ?thesis
      using Some opened by (intro exI [of _ ?opened]) simp
  next
    case None
    show ?thesis
    proof (cases "e_seekable E h")
      case False
      with run h None have "out = Panicked InterfaceConversion" and "tr' = ?tr2 @ [EvClose h]"
        by (simp_all add: readFrom_def Let_def)
      then show ?thesis
        using False opened by (intro exI [of _ ?opened]) simp
    next
      case True
      let ?serr = "e_seek E ?tr2 h offset"
      let ?tr3 = "?tr2 @ [EvSeek h offset ?serr]"
      let ?pre = "[EvNow ?t0, EvOpen filename (Some h) ?err, EvSeek h offset ?serr]"
      have pre: "closes ?pre = []" "seek_offsets ?pre = [offset]"
        by (simp_all add: closes_def seek_offsets_def)
      show ?thesis
      proof (cases ?serr)
        case (Some e)
        with run h None True have "out = Returned (Some e)" and "tr' = ?tr3 @ [EvClose h]"
          by (simp_all add: readFrom_def Let_def)
        then show ?thesis
          using Some pre by (intro exI [of _ ?pre]) simp
      next
        case serr: None
        show ?thesis
        proof (cases "maxAlloc < sz")
          case big: True
          with run h None True serr have "out = Panicked MakeSliceLen"
            and "tr' = ?tr3 @ [EvClose h]"
            by (simp_all add: readFrom_def Let_def)
          then show ?thesis
            using big pre by (intro exI [of _ ?pre]) (simp add: not_le)
        next
          case fits: False
          from run h None True serr fits obtain rerr cur tr4 where
            loop: "readLoop E h sz 0 ?tr3 = Some (rerr, cur, tr4)"
            by (auto simp: readFrom_def Let_def split: option.splits)
          from readLoop_trace [OF loop] obtain rs where
            rs: "tr4 = ?tr3 @ rs" "rs \<noteq> []" "list_all is_read rs" "err_of (last rs) = rerr"
            by (auto simp: loop_post_def)
          note proj = reads_project [OF rs(3)]
          show ?thesis
          proof (cases rerr)
            case (Some e)
            with run h None True serr fits loop have out: "out = Returned (Some e)"
              and tr': "tr' = tr4 @ [EvClose h]"
              by (simp_all add: readFrom_def Let_def)
            have "closes (?pre @ rs) = []" "seek_offsets (?pre @ rs) = [offset]"
              using pre proj by (simp_all only: closes_append seek_offsets_append) simp_all
            then show ?thesis
              using out tr' rs Some by (intro exI [of _ "?pre @ rs"]) simp
          next
            case rnone: None
            let ?t1 = "e_now E tr4"
            let ?line = "EvPrintf progress_fmt [U cur, U offset, F (Seconds (?t1 - ?t0)),
              F (Quot (OfUint (100 * offset)) (OfUint totalsize))]"
            from run h None True serr fits loop rnone have out: "out = Returned None"
              and tr': "tr' = tr4 @ [EvNow ?t1, ?line, EvClose h]"
              by (simp_all add: readFrom_def Let_def)
            have tail: "closes [EvNow ?t1, ?line] = []" "seek_offsets [EvNow ?t1, ?line] = []"
              by (simp_all add: closes_def seek_offsets_def)
            have "closes (?pre @ rs @ [EvNow ?t1, ?line]) = []"
              "seek_offsets (?pre @ rs @ [EvNow ?t1, ?line]) = [offset]"
              using pre proj tail by (simp_all only: closes_append seek_offsets_append) simp_all
            then show ?thesis
              using out tr' rs by (intro exI [of _ "?pre @ rs @ [EvNow ?t1, ?line]"]) simp
          qed
        qed
      qed
    qed
  qed
qed

lemma readFrom_success:
  assumes "readFrom E filename offset sz totalsize tr = Some (Returned None, tr')"
  shows "\<exists>h rs t1 cur.
      e_open E (tr @ [EvNow (e_now E tr)]) filename = (Some h, None)
    \<and> tr' = tr @ [EvNow (e_now E tr), EvOpen filename (Some h) None, EvSeek h offset None] @ rs
            @ [EvNow t1,
               EvPrintf progress_fmt [U cur, U offset, F (Seconds (t1 - e_now E tr)),
                 F (Quot (OfUint (100 * offset)) (OfUint totalsize))],
               EvClose h]
    \<and> rs \<noteq> [] \<and> list_all is_read rs \<and> cur = word_of_nat (bytes_read rs) \<and> sz \<le> cur"
proof -
  let ?t0 = "e_now E tr"
  let ?tr1 = "tr @ [EvNow ?t0]"
  obtain f err where op: "e_open E ?tr1 filename = (f, err)"
    by (cases "e_open E ?tr1 filename")
  let ?tr2 = "?tr1 @ [EvOpen filename f err]"
  from assms op obtain h where f: "f = Some h" and err: "err = None"
    by (auto simp: readFrom_def Let_def split: option.splits)
  let ?tr3 = "?tr2 @ [EvSeek h offset None]"
  from assms op f err have sk: "e_seekable E h"
    by (auto simp: readFrom_def Let_def split: if_splits)
  from assms op f err sk have seek: "e_seek E ?tr2 h offset = None"
    by (auto simp: readFrom_def Let_def split: option.splits)
  from assms op f err sk seek have al: "\<not> maxAlloc < sz"
    by (auto simp: readFrom_def Let_def split: if_splits)
  from assms op f err sk seek al obtain cur tr4 where
    loop: "readLoop E h sz 0 ?tr3 = Some (None, cur, tr4)"
    and tr': "tr' = tr4 @ [EvNow (e_now E tr4),
        EvPrintf progress_fmt [U cur, U offset, F (Seconds (e_now E tr4 - ?t0)),
          F (Quot (OfUint (100 * offset)) (OfUint totalsize))],
        EvClose h]"
    by (auto simp: readFrom_def Let_def split: option.splits)
  from readLoop_trace [OF loop] obtain rs where
    rs: "tr4 = ?tr3 @ rs" "rs \<noteq> []" "list_all is_read rs"
      "cur = word_of_nat (bytes_read rs)" "sz \<le> cur"
    by (auto simp: loop_post_def)
  show ?thesis
    using op f err rs tr' by (intro exI [of _ h] exI [of _ rs] exI [of _ "e_now E tr4"] exI [of _ cur]) simp
qed


lemma unat_succ:
  fixes i c :: u64
  assumes "i < c"
  shows "unat (i + 1) = unat i + 1"
proof -
  from assms have "unat i < unat c"
    by (simp add: word_less_nat_alt)
  moreover have "unat c < 2 ^ 64"
    using unsigned_less [of c] by simp
  ultimately have "unat i + 1 < 2 ^ 64"
    by simp
  then show ?thesis
    by (simp add: unat_word_ariths)
qed

lemma readFrom_success_project:
  assumes "readFrom E filename offset sz totalsize tr = Some (Returned None, tr')"
  shows "\<exists>ext. tr' = tr @ ext \<and> seek_offsets ext = [offset]
    \<and> progress_pcts ext = [(offset, Quot (OfUint (100 * offset)) (OfUint totalsize))]
    \<and> summary_lines ext = [] \<and> length (progress_lines ext) = 1"
proof -
  from readFrom_success [OF assms] obtain h rs t1 cur where
    tr': "tr' = tr @ [EvNow (e_now E tr), EvOpen filename (Some h) None, EvSeek h offset None] @ rs
            @ [EvNow t1,
               EvPrintf progress_fmt [U cur, U offset, F (Seconds (t1 - e_now E tr)),
                 F (Quot (OfUint (100 * offset)) (OfUint totalsize))],
               EvClose h]"
    and rs: "list_all is_read rs"
    by blast
  note proj = reads_project [OF rs]
  let ?ext = "[EvNow (e_now E tr), EvOpen filename (Some h) None, EvSeek h offset None] @ rs
            @ [EvNow t1,
               EvPrintf progress_fmt [U cur, U offset, F (Seconds (t1 - e_now E tr)),
                 F (Quot (OfUint (100 * offset)) (OfUint totalsize))],
               EvClose h]"
  have "seek_offsets ?ext = [offset]"
    using proj(1) by (simp add: seek_offsets_append) (simp add: seek_offsets_def)
  moreover have pl: "progress_lines ?ext = [[U cur, U offset, F (Seconds (t1 - e_now E tr)),
                 F (Quot (OfUint (100 * offset)) (OfUint totalsize))]]"
    using proj(3) by (simp add: progress_lines_append) (simp add: progress_lines_def)
  then have "progress_pcts ?ext = [(offset, Quot (OfUint (100 * offset)) (OfUint totalsize))]"
    by (simp add: progress_pcts_def)
  moreover have "length (progress_lines ?ext) = 1"
    by (simp only: pl) simp
  moreover have "summary_lines ?ext = []"
    using proj(4) progress_fmt_neq_summary_fmt
    by (simp add: summary_lines_append) (simp add: summary_lines_def)
  ultimately show ?thesis
    using tr' by (intro exI [of _ ?ext]) simp
qed

lemma mainLoop_success:
  "mainLoop E filename readSize readCount i tr = Some (None, tr') \<Longrightarrow>
     \<exists>ext. tr' = tr @ ext
       \<and> seek_offsets ext = map (\<lambda>k. readSize * word_of_nat k) [unat i..<unat readCount]
       \<and> progress_pcts ext =
           map (\<lambda>k. (readSize * word_of_nat k,
                      Quot (OfUint (100 * (readSize * word_of_nat k)))
                           (OfUint (readSize * readCount))))
               [unat i..<unat readCount]
       \<and> summary_lines ext = []
       \<and> length (progress_lines ext) = unat readCount - unat i"
proof (induction E filename readSize readCount i tr rule: mainLoop.induct)
  case (1 E filename readSize readCount i tr)
  show ?case
  proof (cases "i < readCount")
    case False
    then have "unat readCount \<le> unat i"
      by (simp add: word_less_nat_alt)
    moreover from False "1.prems" have "tr' = tr"
      by (simp add: mainLoop.simps [of E filename readSize readCount i tr])
    ultimately show ?thesis
      by (simp add: seek_offsets_def progress_pcts_def progress_lines_def summary_lines_def)
  next
    case True
    from True "1.prems" obtain tr1 where
      rf: "readFrom E filename (readSize * i) readSize (readSize * readCount) tr
            = Some (Returned None, tr1)"
      and rec: "mainLoop E filename readSize readCount (i + 1) tr1 = Some (None, tr')"
      by (simp add: mainLoop.simps [of E filename readSize readCount i tr]
          split: option.splits prod.splits outcome.splits)
    from "1.IH" [OF True rf refl refl refl rec] obtain ext where
      ext: "tr' = tr1 @ ext"
        "seek_offsets ext = map (\<lambda>k. readSize * word_of_nat k) [unat (i + 1)..<unat readCount]"
        "progress_pcts ext =
           map (\<lambda>k. (readSize * word_of_nat k,
                      Quot (OfUint (100 * (readSize * word_of_nat k)))
                           (OfUint (readSize * readCount))))
               [unat (i + 1)..<unat readCount]"
        "summary_lines ext = []"
        "length (progress_lines ext) = unat readCount - unat (i + 1)"
      by blast
    from readFrom_success_project [OF rf] obtain ext1 where
      ext1: "tr1 = tr @ ext1" "seek_offsets ext1 = [readSize * i]"
        "progress_pcts ext1 =
           [(readSize * i, Quot (OfUint (100 * (readSize * i))) (OfUint (readSize * readCount)))]"
        "summary_lines ext1 = []" "length (progress_lines ext1) = 1"
      by blast
    have lt: "unat i < unat readCount"
      using True by (simp add: word_less_nat_alt)
    have upt: "[unat i..<unat readCount] = unat i # [unat (i + 1)..<unat readCount]"
      using lt unat_succ [OF True] by (simp add: upt_conv_Cons)
    have "length (progress_lines (ext1 @ ext)) = unat readCount - unat i"
      using ext(5) ext1(5) lt unat_succ [OF True] by (simp add: progress_lines_append)
    then show ?thesis
      using ext(1-4) ext1(1-4) upt
      by (intro exI [of _ "ext1 @ ext"])
        (simp add: seek_offsets_append progress_pcts_append summary_lines_append)
  qed
qed

subsection \<open>Runs without faults, and runs that finish\<close>

lemma readFrom_fault_free:
  assumes ff: "fault_free E filename filesize" and pos: "0 < sz" and fits: "sz \<le> maxAlloc"
  shows "\<exists>tr'. readFrom E filename offset sz totalsize tr = Some (Returned None, tr')
    \<and> bytes_read tr' = bytes_read tr + unat sz"
proof -
  let ?t0 = "e_now E tr"
  let ?tr1 = "tr @ [EvNow ?t0]"
  from ff obtain h where op: "e_open E ?tr1 filename = (Some h, None)"
    unfolding fault_free_def by blast
  let ?tr2 = "?tr1 @ [EvOpen filename (Some h) None]"
  from ff have seek: "e_seek E ?tr2 h offset = None" and sk: "e_seekable E h"
    by (simp_all add: fault_free_def)
  let ?tr3 = "?tr2 @ [EvSeek h offset None]"
  from ff have "reads_ok E"
    by (simp add: fault_free_def)
  from readLoop_fills [OF this pos, of h ?tr3] obtain rs where
    loop: "readLoop E h sz 0 ?tr3 = Some (None, sz, ?tr3 @ rs)"
    and bytes: "bytes_read rs = unat sz"
    by auto
  let ?tr4 = "?tr3 @ rs"
  let ?tr' = "?tr4 @ [EvNow (e_now E ?tr4),
     EvPrintf progress_fmt [U sz, U offset, F (Seconds (e_now E ?tr4 - ?t0)),
       F (Quot (OfUint (100 * offset)) (OfUint totalsize))],
     EvClose h]"
  have "readFrom E filename offset sz totalsize tr = Some (Returned None, ?tr')"
    using op seek sk fits loop by (simp add: readFrom_def Let_def not_less)
  moreover have "bytes_read ?tr' = bytes_read tr + unat sz"
    using bytes by (simp add: bytes_read_append) (simp add: bytes_read_def)
  ultimately show ?thesis
    by blast
qed

lemma mainLoop_fault_free:
  assumes ff: "fault_free E filename filesize" and pos: "0 < readSize"
    and fits: "readSize \<le> maxAlloc"
  shows "\<exists>tr'. mainLoop E filename readSize readCount i tr = Some (None, tr')
    \<and> bytes_read tr' = bytes_read tr + (unat readCount - unat i) * unat readSize"
proof (induction "unat readCount - unat i" arbitrary: i tr)
  case 0
  then have "\<not> i < readCount"
    by (simp add: word_less_nat_alt)
  with 0 show ?case
    by (simp add: mainLoop.simps [of E filename readSize readCount i tr])
next
  case (Suc d)
  then have lt: "i < readCount"
    by (simp add: word_less_nat_alt)
  from readFrom_fault_free [OF ff pos fits, of "readSize * i" "readSize * readCount" tr]
  obtain tr1 where
    rf: "readFrom E filename (readSize * i) readSize (readSize * readCount) tr
           = Some (Returned None, tr1)"
    and b1: "bytes_read tr1 = bytes_read tr + unat readSize"
    by blast
  have d: "d = unat readCount - unat (i + 1)"
    using Suc.hyps(2) unat_succ [OF lt] by simp
  from Suc.hyps(1) [OF d, of tr1] obtain tr' where
    rec: "mainLoop E filename readSize readCount (i + 1) tr1 = Some (None, tr')"
    and b2: "bytes_read tr' = bytes_read tr1 + (unat readCount - unat (i + 1)) * unat readSize"
    by blast
  have "mainLoop E filename readSize readCount i tr = Some (None, tr')"
    using lt rf rec by (simp add: mainLoop.simps [of E filename readSize readCount i tr])
  moreover have "bytes_read tr' = bytes_read tr1 + d * unat readSize"
    using b2 d by simp
  then have "bytes_read tr' = bytes_read tr + Suc d * unat readSize"
    using b1 by simp
  then have "bytes_read tr' = bytes_read tr + (unat readCount - unat i) * unat readSize"
    using Suc.hyps(2) by simp
  ultimately show ?case
    by blast
qed

lemma main_fault_free:
  assumes ff: "fault_free E filename filesize" and name: "filename \<noteq> []"
    and pos: "0 < readsize" and fits: "readsize \<le> maxAlloc"
  shows "\<exists>tr. main E filename readsize = Some (Finished, tr)
    \<and> bytes_read tr = unat (filesize div readsize) * unat readsize"
proof -
  let ?tr2 = "[EvConnect None, EvStat filename (Inr filesize)]"
  let ?tr3 = "?tr2 @ [EvNow (e_now E ?tr2)]"
  from ff have con: "e_connect E [] = None" and st: "e_stat E [EvConnect None] filename = Inr filesize"
    by (simp_all add: fault_free_def)
  from mainLoop_fault_free [OF ff pos fits, of "filesize div readsize" 0 ?tr3] obtain tr4 where
    loop: "mainLoop E filename readsize (filesize div readsize) 0 ?tr3 = Some (None, tr4)"
    and b: "bytes_read tr4 = bytes_read ?tr3 + unat (filesize div readsize) * unat readsize"
    by auto
  have b3: "bytes_read ?tr3 = 0"
    by (simp add: bytes_read_def)
  let ?tr = "tr4 @ [EvNow (e_now E tr4),
     EvPrintf summary_fmt
       [U (readsize * (filesize div readsize)), F (Seconds (e_now E tr4 - e_now E ?tr2)),
        F (Quot (Quot (OfUint (readsize * (filesize div readsize) * 8))
                      (Seconds (e_now E tr4 - e_now E ?tr2)))
                (Const 1000000))]]"
  have "main E filename readsize = Some (Finished, ?tr)"
    using name pos con st loop by (simp add: main_def Let_def)
  moreover have "bytes_read ?tr = unat (filesize div readsize) * unat readsize"
    using b b3 by (simp add: bytes_read_append) (simp add: bytes_read_def)
  ultimately show ?thesis
    by blast
qed

lemma main_finished:
  assumes "main E filename readsize = Some (Finished, tr)"
  shows "\<exists>filesize body.
      filename \<noteq> [] \<and> readsize \<noteq> 0
    \<and> e_stat E [EvConnect None] filename = Inr filesize
    \<and> mainLoop E filename readsize (filesize div readsize) 0
          [EvConnect None, EvStat filename (Inr filesize),
           EvNow (e_now E [EvConnect None, EvStat filename (Inr filesize)])]
        = Some (None, [EvConnect None, EvStat filename (Inr filesize),
           EvNow (e_now E [EvConnect None, EvStat filename (Inr filesize)])] @ body)
    \<and> tr = [EvConnect None, EvStat filename (Inr filesize),
             EvNow (e_now E [EvConnect None, EvStat filename (Inr filesize)])] @ body
          @ [EvNow (e_now E ([EvConnect None, EvStat filename (Inr filesize),
               EvNow (e_now E [EvConnect None, EvStat filename (Inr filesize)])] @ body)),
             EvPrintf summary_fmt
               [U (readsize * (filesize div readsize)),
                F (Seconds (e_now E ([EvConnect None, EvStat filename (Inr filesize),
                     EvNow (e_now E [EvConnect None, EvStat filename (Inr filesize)])] @ body)
                   - e_now E [EvConnect None, EvStat filename (Inr filesize)])),
                F (Quot (Quot (OfUint (readsize * (filesize div readsize) * 8))
                     (Seconds (e_now E ([EvConnect None, EvStat filename (Inr filesize),
                          EvNow (e_now E [EvConnect None, EvStat filename (Inr filesize)])] @ body)
                        - e_now E [EvConnect None, EvStat filename (Inr filesize)])))
                   (Const 1000000))]]"
proof -
  from assms have name: "filename \<noteq> []"
    by (auto simp: main_def)
  from assms name have con: "e_connect E [] = None"
    by (auto simp: main_def Let_def split: option.splits)
  from assms name con obtain filesize where st: "e_stat E [EvConnect None] filename = Inr filesize"
    by (auto simp: main_def Let_def split: sum.splits)
  from assms name con st have nz: "readsize \<noteq> 0"
    by (auto simp: main_def Let_def)
  let ?tr2 = "[EvConnect None, EvStat filename (Inr filesize)]"
  let ?t0 = "e_now E ?tr2"
  let ?tr3 = "?tr2 @ [EvNow ?t0]"
  from assms name con st nz obtain tr4 where
    loop: "mainLoop E filename readsize (filesize div readsize) 0 ?tr3 = Some (None, tr4)"
    and tr: "tr = tr4 @ [EvNow (e_now E tr4),
     EvPrintf summary_fmt
       [U (readsize * (filesize div readsize)), F (Seconds (e_now E tr4 - ?t0)),
        F (Quot (Quot (OfUint (readsize * (filesize div readsize) * 8))
                      (Seconds (e_now E tr4 - ?t0)))
                (Const 1000000))]]"
    by (auto simp: main_def Let_def split: option.splits)
  from mainLoop_success [OF loop] obtain body where body: "tr4 = ?tr3 @ body"
    by blast
  show ?thesis
    using name nz st loop tr body
    by (intro exI [of _ filesize] exI [of _ body]) simp
qed

text \<open>The offsets of the plan do not wrap.\<close>

lemma plan_offset:
  fixes filesize readsize :: u64
  assumes "k < unat filesize div unat readsize"
  shows "unat (readsize * word_of_nat k) = k * unat readsize"
    and "k * unat readsize + unat readsize \<le> unat filesize"
proof -
  from assms have "Suc k \<le> unat filesize div unat readsize"
    by simp
  then have "Suc k * unat readsize \<le> (unat filesize div unat readsize) * unat readsize"
    by (rule mult_le_mono1)
  also have "\<dots> \<le> unat filesize"
    by simp
  finally show le: "k * unat readsize + unat readsize \<le> unat filesize"
    by simp
  have fs: "unat filesize < 2 ^ 64"
    using unsigned_less [of filesize] by simp
  from assms have "0 < unat readsize"
    by (cases "unat readsize = 0") simp_all
  then have "k \<le> k * unat readsize"
    by simp
  with le fs have k: "k < 2 ^ 64" and prod: "k * unat readsize < 2 ^ 64"
    by linarith+
  then show "unat (readsize * word_of_nat k) = k * unat readsize"
    by (simp add: unat_word_ariths unat_of_nat mult.commute)
qed

lemma reads_ok_chunked: "0 < chunk \<Longrightarrow> reads_ok (chunked filesize chunk)"
  by (auto simp: reads_ok_def chunked_def)

lemma fault_free_chunked: "0 < chunk \<Longrightarrow> fault_free (chunked filesize chunk) filename filesize"
  by (simp add: fault_free_def reads_ok_chunked) (simp add: chunked_def)

lemma main_finished_seeks:
  assumes "main E filename readsize = Some (Finished, tr)"
    and "e_stat E [EvConnect None] filename = Inr filesize"
  shows "seek_offsets tr
    = map (\<lambda>k. readsize * word_of_nat k) [0..<unat filesize div unat readsize]"
proof -
  from main_finished [OF assms(1)] assms(2) obtain body where
    loop: "mainLoop E filename readsize (filesize div readsize) 0
          [EvConnect None, EvStat filename (Inr filesize),
           EvNow (e_now E [EvConnect None, EvStat filename (Inr filesize)])]
        = Some (None, [EvConnect None, EvStat filename (Inr filesize),
           EvNow (e_now E [EvConnect None, EvStat filename (Inr filesize)])] @ body)"
    and tr: "seek_offsets tr = seek_offsets body"
    by (auto simp: seek_offsets_append) (simp add: seek_offsets_def)
  from mainLoop_success [OF loop] have
    "seek_offsets body = map (\<lambda>k. readsize * word_of_nat k) [unat (0 :: u64)..<unat (filesize div readsize)]"
    by auto
  with tr show ?thesis
    by (simp add: unat_div)
qed

lemma summary_totals_append: "summary_totals (xs @ ys) = summary_totals xs @ summary_totals ys"
  by (simp add: summary_totals_def summary_lines_append)

lemma main_finished_totals:
  assumes "main E filename readsize = Some (Finished, tr)"
    and "e_stat E [EvConnect None] filename = Inr filesize"
  shows "summary_totals tr = [readsize * (filesize div readsize)]"
proof -
  from main_finished [OF assms(1)] assms(2) obtain body t0 t1 where
    loop: "mainLoop E filename readsize (filesize div readsize) 0
          [EvConnect None, EvStat filename (Inr filesize), EvNow t0]
        = Some (None, [EvConnect None, EvStat filename (Inr filesize), EvNow t0] @ body)"
    and tr: "tr = [EvConnect None, EvStat filename (Inr filesize), EvNow t0] @ body
          @ [EvNow t1,
             EvPrintf summary_fmt
               [U (readsize * (filesize div readsize)), F (Seconds (t1 - t0)),
                F (Quot (Quot (OfUint (readsize * (filesize div readsize) * 8))
                              (Seconds (t1 - t0)))
                        (Const 1000000))]]"
    by auto
  from mainLoop_success [OF loop] have "summary_lines body = []"
    by auto
  then have "summary_totals body = []"
    by (simp add: summary_totals_def)
  then show ?thesis
    unfolding tr by (simp add: summary_totals_append) (simp add: summary_totals_def summary_lines_def)
qed

lemma fault_free_with_clock:
  "fault_free E filename filesize \<Longrightarrow> fault_free (with_clock c E) filename filesize"
  by (simp add: fault_free_def reads_ok_def with_clock_def)

lemma main_finished_progress:
  assumes "main E filename readsize = Some (Finished, tr)"
    and "e_stat E [EvConnect None] filename = Inr filesize"
  shows "progress_pcts tr
      = map (\<lambda>k. (readsize * word_of_nat k,
                   Quot (OfUint (100 * (readsize * word_of_nat k)))
                        (OfUint (readsize * (filesize div readsize)))))
            [0..<unat filesize div unat readsize]"
    and "length (progress_lines tr) = unat filesize div unat readsize"
proof -
  from main_finished [OF assms(1)] assms(2) obtain body t0 t1 args where
    loop: "mainLoop E filename readsize (filesize div readsize) 0
          [EvConnect None, EvStat filename (Inr filesize), EvNow t0]
        = Some (None, [EvConnect None, EvStat filename (Inr filesize), EvNow t0] @ body)"
    and tr: "tr = [EvConnect None, EvStat filename (Inr filesize), EvNow t0] @ body
          @ [EvNow t1, EvPrintf summary_fmt args]"
    by auto
  have lines: "progress_lines tr = progress_lines body"
    unfolding tr using progress_fmt_neq_summary_fmt
    by (simp add: progress_lines_append) (auto simp: progress_lines_def)
  from mainLoop_success [OF loop] have
    "progress_pcts body
      = map (\<lambda>k. (readsize * word_of_nat k,
                   Quot (OfUint (100 * (readsize * word_of_nat k)))
                        (OfUint (readsize * (filesize div readsize)))))
            [unat (0 :: u64)..<unat (filesize div readsize)]"
    and "length (progress_lines body) = unat (filesize div readsize) - unat (0 :: u64)"
    by auto
  with lines show "progress_pcts tr
      = map (\<lambda>k. (readsize * word_of_nat k,
                   Quot (OfUint (100 * (readsize * word_of_nat k)))
                        (OfUint (readsize * (filesize div readsize)))))
            [0..<unat filesize div unat readsize]"
    and "length (progress_lines tr) = unat filesize div unat readsize"
    by (simp_all add: progress_pcts_def unat_div)
qed

subsection \<open>Runs that stop early\<close>

text \<open>Whatever way \<open>readFrom\<close> comes back, it has sought at most once, to its offset.\<close>

lemma readFrom_seeks:
  assumes "readFrom E filename offset sz totalsize tr = Some (out, tr')"
  shows "\<exists>ext. tr' = tr @ ext \<and> (seek_offsets ext = [] \<or> seek_offsets ext = [offset])"
proof (cases "fst (e_open E (tr @ [EvNow (e_now E tr)]) filename)")
  case None
  from assms readFrom_nil_handle [OF None, of offset sz totalsize]
  have "tr' = tr @ [EvNow (e_now E tr),
      EvOpen filename None (snd (e_open E (tr @ [EvNow (e_now E tr)]) filename))]"
    by simp
  then show ?thesis
    by (intro exI [of _ "[EvNow (e_now E tr),
      EvOpen filename None (snd (e_open E (tr @ [EvNow (e_now E tr)]) filename))]"])
      (simp add: seek_offsets_def)
next
  case (Some h)
  from readFrom_exits [OF assms Some] obtain mid where
    mid: "tr' = tr @ mid @ [EvClose h]" "seek_offsets mid = [] \<or> seek_offsets mid = [offset]"
    by blast
  have "seek_offsets (mid @ [EvClose h]) = seek_offsets mid"
    by (simp add: seek_offsets_append) (simp add: seek_offsets_def)
  with mid show ?thesis
    by (intro exI [of _ "mid @ [EvClose h]"]) simp
qed

text \<open>
  Whatever way the loop of \<^verbatim>\<open>main\<close> comes back, the offsets sought so far are the
  first so many of the offsets still ahead.
\<close>

lemma mainLoop_seeks:
  "mainLoop E filename readSize readCount i tr = Some (r, tr') \<Longrightarrow>
     \<exists>ext n. tr' = tr @ ext
       \<and> seek_offsets ext
           = take n (map (\<lambda>k. readSize * word_of_nat k) [unat i..<unat readCount])"
proof (induction E filename readSize readCount i tr rule: mainLoop.induct)
  case (1 E filename readSize readCount i tr)
  let ?ahead = "map (\<lambda>k. readSize * word_of_nat k) [unat i..<unat readCount]"
  show ?case
  proof (cases "i < readCount")
    case False
    with "1.prems" have "tr' = tr"
      by (simp add: mainLoop.simps [of E filename readSize readCount i tr])
    then show ?thesis
      by (intro exI [of _ "[]"] exI [of _ 0]) (simp add: seek_offsets_def)
  next
    case True
    have lt: "unat i < unat readCount"
      using True by (simp add: word_less_nat_alt)
    have upt: "[unat i..<unat readCount] = unat i # [unat (i + 1)..<unat readCount]"
      using lt unat_succ [OF True] by (simp add: upt_conv_Cons)
    then have ahead: "?ahead = readSize * i
        # map (\<lambda>k. readSize * word_of_nat k) [unat (i + 1)..<unat readCount]"
      by simp
    from True "1.prems" obtain out tr1 where
      rf: "readFrom E filename (readSize * i) readSize (readSize * readCount) tr
            = Some (out, tr1)"
      by (auto simp: mainLoop.simps [of E filename readSize readCount i tr]
          split: option.splits)
    from readFrom_seeks [OF rf] obtain ext1 where
      ext1: "tr1 = tr @ ext1" "seek_offsets ext1 = [] \<or> seek_offsets ext1 = [readSize * i]"
      by blast
    show ?thesis
    proof (cases "out = Returned None")
      case False
      with True "1.prems" rf have "tr' = tr1"
        by (auto simp: mainLoop.simps [of E filename readSize readCount i tr]
            split: outcome.splits option.splits)
      moreover from ext1(2) ahead have "seek_offsets ext1 = take 0 ?ahead
          \<or> seek_offsets ext1 = take (Suc 0) ?ahead"
        by auto
      ultimately show ?thesis
        using ext1(1) by blast
    next
      case ok: True
      with True "1.prems" rf have
        rec: "mainLoop E filename readSize readCount (i + 1) tr1 = Some (r, tr')"
        by (simp add: mainLoop.simps [of E filename readSize readCount i tr])
      from rf ok have rf': "readFrom E filename (readSize * i) readSize
          (readSize * readCount) tr = Some (Returned None, tr1)"
        by simp
      from "1.IH" [OF True rf' refl refl refl rec] obtain ext n where
        ext: "tr' = tr1 @ ext"
          "seek_offsets ext
            = take n (map (\<lambda>k. readSize * word_of_nat k) [unat (i + 1)..<unat readCount])"
        by blast
      from readFrom_success_project [OF rf'] ext1(1) have one: "seek_offsets ext1 = [readSize * i]"
        by auto
      have "seek_offsets (ext1 @ ext) = take (Suc n) ?ahead"
        using one ext(2) ahead by (simp add: seek_offsets_append)
      then show ?thesis
        using ext(1) ext1(1) by (intro exI [of _ "ext1 @ ext"] exI [of _ "Suc n"]) simp
    qed
  qed
qed

lemma main_seeks:
  assumes run: "main E filename readsize = Some (x, tr)"
    and st: "e_stat E [EvConnect None] filename = Inr filesize"
  shows "\<exists>n. seek_offsets tr = take n (plan_offsets readsize (filesize div readsize))"
proof -
  have none: "\<exists>n. [] = take n (plan_offsets readsize (filesize div readsize))"
    by (intro exI [of _ 0]) simp
  consider (usage) "filename = []"
    | (connect) e where "filename \<noteq> []" "e_connect E [] = Some e"
    | (zero) "filename \<noteq> []" "e_connect E [] = None" "readsize = 0"
    | (loop) "filename \<noteq> []" "e_connect E [] = None" "readsize \<noteq> 0"
    by (cases "e_connect E []") auto
  then show ?thesis
  proof cases
    case usage
    with run have "tr = [EvPrintf usage_fmt []]"
      by (simp add: main_def)
    then show ?thesis
      using none by (simp add: seek_offsets_def)
  next
    case connect
    with run have "tr = [EvConnect (Some e)]"
      by (simp add: main_def Let_def)
    then show ?thesis
      using none by (simp add: seek_offsets_def)
  next
    case zero
    with run st have "tr = [EvConnect None, EvStat filename (Inr filesize)]"
      by (simp add: main_def Let_def)
    then show ?thesis
      using none by (simp add: seek_offsets_def)
  next
    case loop
    let ?tr3 = "[EvConnect None, EvStat filename (Inr filesize),
      EvNow (e_now E [EvConnect None, EvStat filename (Inr filesize)])]"
    from run st loop obtain r tr4 where
      ml: "mainLoop E filename readsize (filesize div readsize) 0 ?tr3 = Some (r, tr4)"
      and tr: "seek_offsets tr = seek_offsets tr4"
      by (auto simp: main_def Let_def seek_offsets_append split: option.splits)
        (simp add: seek_offsets_def)
    from mainLoop_seeks [OF ml] obtain ext n where
      ext: "tr4 = ?tr3 @ ext"
        "seek_offsets ext = take n (map (\<lambda>k. readsize * word_of_nat k)
           [unat (0 :: u64)..<unat (filesize div readsize)])"
      by blast
    have "seek_offsets ?tr3 = []"
      by (simp add: seek_offsets_def)
    moreover have "seek_offsets tr4 = seek_offsets ?tr3 @ seek_offsets ext"
      unfolding ext(1) by (rule seek_offsets_append)
    ultimately have "seek_offsets tr4 = seek_offsets ext"
      by simp
    with ext(2) tr have "seek_offsets tr = take n (plan_offsets readsize (filesize div readsize))"
      by (simp add: plan_offsets_def)
    then show ?thesis
      by blast
  qed
qed

text \<open>A read size above the allocation limit: the first call of \<open>readFrom\<close> panics.\<close>

lemma readFrom_alloc_panic:
  assumes ff: "fault_free E filename filesize" and big: "maxAlloc < sz"
  shows "\<exists>tr'. readFrom E filename offset sz totalsize tr = Some (Panicked MakeSliceLen, tr')
    \<and> seek_offsets tr' = seek_offsets tr @ [offset] \<and> bytes_read tr' = bytes_read tr
    \<and> summary_totals tr' = summary_totals tr"
proof -
  let ?t0 = "e_now E tr"
  let ?tr1 = "tr @ [EvNow ?t0]"
  from ff obtain h where op: "e_open E ?tr1 filename = (Some h, None)"
    unfolding fault_free_def by blast
  let ?tr2 = "?tr1 @ [EvOpen filename (Some h) None]"
  from ff have seek: "e_seek E ?tr2 h offset = None" and sk: "e_seekable E h"
    by (simp_all add: fault_free_def)
  let ?ext = "[EvNow ?t0, EvOpen filename (Some h) None, EvSeek h offset None, EvClose h]"
  have "readFrom E filename offset sz totalsize tr = Some (Panicked MakeSliceLen, tr @ ?ext)"
    using op seek sk big by (simp add: readFrom_def Let_def)
  moreover have "seek_offsets ?ext = [offset]" "bytes_read ?ext = 0" "summary_totals ?ext = []"
    by (simp_all add: seek_offsets_def bytes_read_def summary_totals_def summary_lines_def)
  ultimately show ?thesis
    by (intro exI [of _ "tr @ ?ext"])
      (simp add: seek_offsets_append bytes_read_append summary_totals_append)
qed

lemma main_over_limit:
  assumes ff: "fault_free E filename filesize" and name: "filename \<noteq> []"
    and big: "maxAlloc < readsize"
  shows "\<exists>tr. main E filename readsize
        = Some (if filesize div readsize = 0 then Finished else Crashed MakeSliceLen, tr)
    \<and> seek_offsets tr = (if filesize div readsize = 0 then [] else [0])
    \<and> bytes_read tr = 0
    \<and> summary_totals tr = (if filesize div readsize = 0 then [0] else [])"
proof -
  let ?tr2 = "[EvConnect None, EvStat filename (Inr filesize)]"
  let ?tr3 = "?tr2 @ [EvNow (e_now E ?tr2)]"
  from ff have con: "e_connect E [] = None" and st: "e_stat E [EvConnect None] filename = Inr filesize"
    by (simp_all add: fault_free_def)
  from big have nz: "readsize \<noteq> 0"
    by auto
  have tr3: "seek_offsets ?tr3 = []" "bytes_read ?tr3 = 0" "summary_totals ?tr3 = []"
    by (simp_all add: seek_offsets_def bytes_read_def summary_totals_def summary_lines_def)
  show ?thesis
  proof (cases "filesize div readsize = 0")
    case True
    then have loop: "mainLoop E filename readsize (filesize div readsize) 0 ?tr3 = Some (None, ?tr3)"
      by (subst mainLoop.simps) simp
    let ?tail = "[EvNow (e_now E ?tr3),
       EvPrintf summary_fmt
         [U (readsize * (filesize div readsize)), F (Seconds (e_now E ?tr3 - e_now E ?tr2)),
          F (Quot (Quot (OfUint (readsize * (filesize div readsize) * 8))
                        (Seconds (e_now E ?tr3 - e_now E ?tr2)))
                  (Const 1000000))]]"
    have "main E filename readsize = Some (Finished, ?tr3 @ ?tail)"
      using name nz con st loop by (simp add: main_def Let_def)
    moreover have "seek_offsets ?tail = []" "bytes_read ?tail = 0" "summary_totals ?tail = [0]"
      using True
      by (simp_all add: seek_offsets_def bytes_read_def summary_totals_def summary_lines_def)
    ultimately show ?thesis
      using True tr3
      by (intro exI [of _ "?tr3 @ ?tail"])
        (simp only: seek_offsets_append bytes_read_append summary_totals_append, simp)
  next
    case False
    then have pos: "0 < filesize div readsize"
      by (simp add: word_greater_zero_iff)
    from readFrom_alloc_panic [OF ff big, of "readsize * 0"
        "readsize * (filesize div readsize)" ?tr3]
    obtain tr' where
      rf: "readFrom E filename (readsize * 0) readsize (readsize * (filesize div readsize)) ?tr3
            = Some (Panicked MakeSliceLen, tr')"
      and proj: "seek_offsets tr' = seek_offsets ?tr3 @ [readsize * 0]"
        "bytes_read tr' = bytes_read ?tr3" "summary_totals tr' = summary_totals ?tr3"
      by blast
    have loop: "mainLoop E filename readsize (filesize div readsize) 0 ?tr3
        = Some (Some MakeSliceLen, tr')"
      using pos rf by (subst mainLoop.simps) simp
    have "main E filename readsize = Some (Crashed MakeSliceLen, tr')"
      using name nz con st loop by (simp add: main_def Let_def)
    then show ?thesis
      using False proj tr3 by (intro exI [of _ tr']) simp
  qed
qed

subsection \<open>Some runs, evaluated\<close>


lemma small_run:
  "main (chunked 10 7) ''f'' 4 =
     Some (Finished,
       [EvConnect None, EvStat ''f'' (Inr 10), EvNow 2000000,
        EvNow 3000000, EvOpen ''f'' (Some 1) None, EvSeek 1 0 None, EvRead 1 4 4 None,
        EvNow 7000000,
        EvPrintf progress_fmt [U 4, U 0, F (Seconds 4000000), F (Quot (OfUint 0) (OfUint 8))],
        EvClose 1,
        EvNow 10000000, EvOpen ''f'' (Some 1) None, EvSeek 1 4 None, EvRead 1 4 4 None,
        EvNow 14000000,
        EvPrintf progress_fmt [U 4, U 4, F (Seconds 4000000), F (Quot (OfUint 400) (OfUint 8))],
        EvClose 1,
        EvNow 17000000,
        EvPrintf summary_fmt
          [U 8, F (Seconds 15000000),
           F (Quot (Quot (OfUint 64) (Seconds 15000000)) (Const 1000000))]])"
  by code_simp

lemma third_read_fails_run:
  "main (read_fails_after 2 (chunked 40 100)) ''f'' 10 =
     Some (Crashed (PanicErr (Error ''read failed'')),
       [EvConnect None, EvStat ''f'' (Inr 40), EvNow 2000000,
        EvNow 3000000, EvOpen ''f'' (Some 1) None, EvSeek 1 0 None, EvRead 1 10 10 None,
        EvNow 7000000,
        EvPrintf progress_fmt [U 10, U 0, F (Seconds 4000000), F (Quot (OfUint 0) (OfUint 40))],
        EvClose 1,
        EvNow 10000000, EvOpen ''f'' (Some 1) None, EvSeek 1 10 None, EvRead 1 10 10 None,
        EvNow 14000000,
        EvPrintf progress_fmt
          [U 10, U 10, F (Seconds 4000000), F (Quot (OfUint 1000) (OfUint 40))],
        EvClose 1,
        EvNow 17000000, EvOpen ''f'' (Some 1) None, EvSeek 1 20 None,
        EvRead 1 10 0 (Some (Error ''read failed'')), EvClose 1])"
  by code_simp

section \<open>The claims\<close>

text \<open>
  In the theorems below the offsets a run has worked on are read off its trace:
  \<open>seek_offsets\<close> lists the offsets passed to \<^verbatim>\<open>Seek\<close>, one per call of \<open>readFrom\<close> that
  got as far as \<^verbatim>\<open>Seek\<close>, in the order of the calls.
\<close>

text \<open>
  C2. For every requested size \<open>sz > 0\<close> and every transport whose \<^verbatim>\<open>Read\<close> returns,
  without error, a positive number of bytes that fits the buffer it was given, the
  read loop comes back without error with the cursor at exactly \<open>sz\<close>. What it has
  added to the trace are its \<^verbatim>\<open>Read\<close> calls, and they walk the cursor from 0 to \<open>sz\<close>:
  each call asks for the \<open>sz - cursor\<close> bytes still missing, each event carries the
  answer the transport gave to that call after the calls before it, the cursor
  advances by the number of bytes in that answer, and the loop goes on until the
  cursor is \<open>sz\<close>. The bytes returned add up to \<open>sz\<close>, so nothing beyond the requested
  size is read.
\<close>

theorem readLoop_reads_exactly_size:
  assumes "reads_ok E" and "0 < sz"
  shows "\<exists>rs. readLoop E f sz 0 tr = Some (None, sz, tr @ rs) \<and> rs \<noteq> []
           \<and> cursor_reads E f sz 0 tr rs \<and> bytes_read rs = unat sz"
  using readLoop_fills [OF assms(1), of 0 sz f tr] assms(2) by simp

text \<open>
  A request of 100 bytes against a transport that hands out 7 bytes per call: fourteen
  reads of 7 bytes and one of the last 2.
\<close>

lemma seven_byte_reads:
  "readLoop (chunked 1000 7) 1 100 0 [] =
     Some (None, 100,
       [EvRead 1 100 7 None, EvRead 1 93 7 None, EvRead 1 86 7 None, EvRead 1 79 7 None,
        EvRead 1 72 7 None, EvRead 1 65 7 None, EvRead 1 58 7 None, EvRead 1 51 7 None,
        EvRead 1 44 7 None, EvRead 1 37 7 None, EvRead 1 30 7 None, EvRead 1 23 7 None,
        EvRead 1 16 7 None, EvRead 1 9 7 None, EvRead 1 2 2 None])"
  by code_simp

theorem readLoop_reads_exactly_size_witness:
  "reads_ok (chunked 1000 7) \<and> (0 :: u64) < 100
   \<and> readLoop (chunked 1000 7) 1 100 0 [] =
       Some (None, 100,
         [EvRead 1 100 7 None, EvRead 1 93 7 None, EvRead 1 86 7 None, EvRead 1 79 7 None,
          EvRead 1 72 7 None, EvRead 1 65 7 None, EvRead 1 58 7 None, EvRead 1 51 7 None,
          EvRead 1 44 7 None, EvRead 1 37 7 None, EvRead 1 30 7 None, EvRead 1 23 7 None,
          EvRead 1 16 7 None, EvRead 1 9 7 None, EvRead 1 2 2 None])
   \<and> cursor_reads (chunked 1000 7) 1 100 0 []
         [EvRead 1 100 7 None, EvRead 1 93 7 None, EvRead 1 86 7 None, EvRead 1 79 7 None,
          EvRead 1 72 7 None, EvRead 1 65 7 None, EvRead 1 58 7 None, EvRead 1 51 7 None,
          EvRead 1 44 7 None, EvRead 1 37 7 None, EvRead 1 30 7 None, EvRead 1 23 7 None,
          EvRead 1 16 7 None, EvRead 1 9 7 None, EvRead 1 2 2 None]
   \<and> bytes_read
         [EvRead 1 100 7 None, EvRead 1 93 7 None, EvRead 1 86 7 None, EvRead 1 79 7 None,
          EvRead 1 72 7 None, EvRead 1 65 7 None, EvRead 1 58 7 None, EvRead 1 51 7 None,
          EvRead 1 44 7 None, EvRead 1 37 7 None, EvRead 1 30 7 None, EvRead 1 23 7 None,
          EvRead 1 16 7 None, EvRead 1 9 7 None, EvRead 1 2 2 None] = unat (100 :: u64)"
proof -
  have ok: "reads_ok (chunked 1000 7)"
    by (simp add: reads_ok_chunked)
  have pos: "(0 :: u64) < 100"
    by simp
  from readLoop_reads_exactly_size [OF ok pos, of 1 "[]"] obtain rs where
    run: "readLoop (chunked 1000 7) 1 100 0 [] = Some (None, 100, [] @ rs)"
    and walk: "cursor_reads (chunked 1000 7) 1 100 0 [] rs"
    and total: "bytes_read rs = unat (100 :: u64)"
    by blast
  from run have "rs = [EvRead 1 100 7 None, EvRead 1 93 7 None, EvRead 1 86 7 None,
          EvRead 1 79 7 None,
          EvRead 1 72 7 None, EvRead 1 65 7 None, EvRead 1 58 7 None, EvRead 1 51 7 None,
          EvRead 1 44 7 None, EvRead 1 37 7 None, EvRead 1 30 7 None, EvRead 1 23 7 None,
          EvRead 1 16 7 None, EvRead 1 9 7 None, EvRead 1 2 2 None]"
    unfolding seven_byte_reads by simp
  with ok pos walk total show ?thesis
    using seven_byte_reads by blast
qed

text \<open>
  C4. Whenever \<^verbatim>\<open>Open\<close> has yielded a handle \<open>h\<close> and \<open>readFrom\<close> comes back, with
  whatever result, the events it added end with \<open>Close\<close> on \<open>h\<close>, and that is the only
  \<open>Close\<close> among them: the handle is released exactly once, as the last action, on
  every way out, the two panics (of the type assertion and of \<^verbatim>\<open>make\<close>) included.
  Apart from these panics the result is the error of the last call before the
  \<open>Close\<close>; so when a \<^verbatim>\<open>Read\<close> fails partway through, \<open>Close\<close> has been called by the
  time the error reaches the caller.
\<close>

theorem readFrom_closes_handle:
  assumes "readFrom E filename offset sz totalsize tr = Some (out, tr')"
    and "fst (e_open E (tr @ [EvNow (e_now E tr)]) filename) = Some h"
  shows "\<exists>mid. tr' = tr @ mid @ [EvClose h] \<and> mid \<noteq> [] \<and> closes mid = []
    \<and> (out = Returned (err_of (last mid)) \<or> out = Panicked InterfaceConversion
        \<or> out = Panicked MakeSliceLen)
    \<and> (e_seekable E h \<and> sz \<le> maxAlloc \<longrightarrow> out = Returned (err_of (last mid)))"
  using readFrom_exits [OF assms] by blast

text \<open>The third \<^verbatim>\<open>Read\<close> of a 100-byte request fails, after two reads of 7 bytes.\<close>

lemma read_fails_run:
  "readFrom (read_fails_after 2 (chunked 1000 7)) ''f'' 0 100 100 [] =
     Some (Returned (Some (Error ''read failed'')),
       [EvNow 0, EvOpen ''f'' (Some 1) None, EvSeek 1 0 None, EvRead 1 100 7 None,
        EvRead 1 93 7 None, EvRead 1 86 0 (Some (Error ''read failed'')), EvClose 1])"
  by code_simp

theorem readFrom_closes_handle_witness:
  "readFrom (read_fails_after 2 (chunked 1000 7)) ''f'' 0 100 100 [] =
     Some (Returned (Some (Error ''read failed'')),
       [EvNow 0, EvOpen ''f'' (Some 1) None, EvSeek 1 0 None, EvRead 1 100 7 None,
        EvRead 1 93 7 None, EvRead 1 86 0 (Some (Error ''read failed'')), EvClose 1])
   \<and> fst (e_open (read_fails_after 2 (chunked 1000 7))
            ([] @ [EvNow (e_now (read_fails_after 2 (chunked 1000 7)) [])]) ''f'') = Some 1
   \<and> e_seekable (read_fails_after 2 (chunked 1000 7)) 1 \<and> (100 :: u64) \<le> maxAlloc
   \<and> (\<exists>mid. [EvNow 0, EvOpen ''f'' (Some 1) None, EvSeek 1 0 None, EvRead 1 100 7 None,
        EvRead 1 93 7 None, EvRead 1 86 0 (Some (Error ''read failed'')), EvClose 1]
          = [] @ mid @ [EvClose 1] \<and> mid \<noteq> [] \<and> closes mid = []
        \<and> Returned (Some (Error ''read failed'')) = Returned (err_of (last mid)))"
proof -
  have h: "fst (e_open (read_fails_after 2 (chunked 1000 7))
            ([] @ [EvNow (e_now (read_fails_after 2 (chunked 1000 7)) [])]) ''f'') = Some 1"
    by (simp add: read_fails_after_def chunked_def)
  have sk: "e_seekable (read_fails_after 2 (chunked 1000 7)) 1"
    by (simp add: read_fails_after_def chunked_def)
  have fits: "(100 :: u64) \<le> maxAlloc"
    by (simp add: maxAlloc_def)
  from readFrom_closes_handle [OF read_fails_run h] sk fits
  have "\<exists>mid. [EvNow 0, EvOpen ''f'' (Some 1) None, EvSeek 1 0 None, EvRead 1 100 7 None,
        EvRead 1 93 7 None, EvRead 1 86 0 (Some (Error ''read failed'')), EvClose 1]
          = [] @ mid @ [EvClose 1] \<and> mid \<noteq> [] \<and> closes mid = []
        \<and> Returned (Some (Error ''read failed'')) = Returned (err_of (last mid))"
    by blast
  with read_fails_run h sk fits show ?thesis
    by blast
qed

text \<open>
  C10. When \<^verbatim>\<open>Open\<close> returns an error and hence a nil handle, \<open>readFrom\<close> does not
  return that error. \<^verbatim>\<open>defer f.Close()\<close> stands before the test of the error, so
  \<^verbatim>\<open>Close\<close> is taken from the nil handle first, and the call ends in the nil
  dereference panic right after the \<^verbatim>\<open>Open\<close>, with no seek and no read.
\<close>

theorem readFrom_open_error_nil_close:
  assumes "e_open E (tr @ [EvNow (e_now E tr)]) filename = (None, Some e)"
  shows "readFrom E filename offset sz totalsize tr =
      Some (Panicked NilDereference, tr @ [EvNow (e_now E tr), EvOpen filename None (Some e)])
    \<and> (\<forall>tr'. readFrom E filename offset sz totalsize tr \<noteq> Some (Returned (Some e), tr'))"
  using assms readFrom_nil_handle [of E tr filename offset sz totalsize] by simp

theorem readFrom_open_error_nil_close_witness:
  "e_open (open_fails_after 0 (chunked 1000 7))
      ([] @ [EvNow (e_now (open_fails_after 0 (chunked 1000 7)) [])]) ''f''
     = (None, Some (Error ''open failed''))
   \<and> readFrom (open_fails_after 0 (chunked 1000 7)) ''f'' 0 100 100 [] =
      Some (Panicked NilDereference, [EvNow 0, EvOpen ''f'' None (Some (Error ''open failed''))])
   \<and> (\<forall>tr'. readFrom (open_fails_after 0 (chunked 1000 7)) ''f'' 0 100 100 []
         \<noteq> Some (Returned (Some (Error ''open failed'')), tr'))"
proof -
  have op: "e_open (open_fails_after 0 (chunked 1000 7))
      ([] @ [EvNow (e_now (open_fails_after 0 (chunked 1000 7)) [])]) ''f''
     = (None, Some (Error ''open failed''))"
    by (simp add: open_fails_after_def chunked_def)
  have now: "e_now (open_fails_after 0 (chunked 1000 7)) [] = 0"
    by (simp add: open_fails_after_def chunked_def)
  show ?thesis
    using op readFrom_open_error_nil_close [OF op, of 0 100 100] by (simp add: now)
qed

text \<open>
  C1. The read plan is the list \<open>plan_offsets readSize (fileSize div readSize)\<close> of the
  offsets the loop of \<^verbatim>\<open>main\<close> runs through. For every file size and every read size
  above 0 it has exactly \<open>\<lfloor>fileSize / readSize\<rfloor>\<close> entries; the \<open>k\<close>-th is
  \<open>k * readSize\<close> without wrap-around (so the first is 0 and neighbours are \<open>readSize\<close>
  apart), they are strictly increasing, and each satisfies
  \<open>offset + readSize \<le> fileSize\<close>: the last \<open>fileSize mod readSize\<close> bytes are left out.
  The program follows this plan in every run, whatever the environment does: the
  offsets it has sought to when it stops are the first so many entries of the plan, and
  all of them when the run finishes. A run without faults whose read size can be
  allocated does finish.
\<close>

theorem main_read_plan:
  "(0 < readsize \<longrightarrow>
      length (plan_offsets readsize (filesize div readsize)) = unat filesize div unat readsize
    \<and> (\<forall>k < unat filesize div unat readsize.
          unat (plan_offsets readsize (filesize div readsize) ! k) = k * unat readsize
          \<and> unat (plan_offsets readsize (filesize div readsize) ! k) + unat readsize
               \<le> unat filesize)
    \<and> sorted_wrt (<) (plan_offsets readsize (filesize div readsize)))
   \<and> (main E filename readsize = Some (x, tr)
        \<and> e_stat E [EvConnect None] filename = Inr filesize \<longrightarrow>
        (\<exists>n. seek_offsets tr = take n (plan_offsets readsize (filesize div readsize)))
      \<and> (x = Finished \<longrightarrow> seek_offsets tr = plan_offsets readsize (filesize div readsize)))
   \<and> (fault_free E filename filesize \<and> filename \<noteq> [] \<and> 0 < readsize
        \<and> readsize \<le> maxAlloc \<longrightarrow>
        (\<exists>run. main E filename readsize = Some (Finished, run)
           \<and> seek_offsets run = plan_offsets readsize (filesize div readsize)))"
proof (intro conjI impI)
  let ?q = "unat filesize div unat readsize"
  let ?plan = "plan_offsets readsize (filesize div readsize)"
  have plan: "?plan = map (\<lambda>k. readsize * word_of_nat k) [0..<?q]"
    by (simp add: plan_offsets_def unat_div)
  show len: "length ?plan = ?q"
    by (simp add: plan)
  have nth: "unat (?plan ! k) = k * unat readsize
      \<and> unat (?plan ! k) + unat readsize \<le> unat filesize"
    if "k < ?q" for k
    using that plan_offset [OF that] by (simp add: plan)
  then show "\<forall>k < ?q. unat (?plan ! k) = k * unat readsize
      \<and> unat (?plan ! k) + unat readsize \<le> unat filesize"
    by blast
  assume "0 < readsize"
  then have pos: "0 < unat readsize"
    by (simp add: word_less_nat_alt)
  have "?plan ! i < ?plan ! j" if "i < j" and "j < length ?plan" for i j
  proof -
    from that len have "i < ?q" "j < ?q"
      by simp_all
    then have "unat (?plan ! i) = i * unat readsize" and "unat (?plan ! j) = j * unat readsize"
      using nth by simp_all
    with that(1) pos show ?thesis
      by (simp add: word_less_nat_alt)
  qed
  then show "sorted_wrt (<) ?plan"
    by (simp add: sorted_wrt_iff_nth_less)
next
  assume "main E filename readsize = Some (x, tr)
    \<and> e_stat E [EvConnect None] filename = Inr filesize"
  then show "\<exists>n. seek_offsets tr = take n (plan_offsets readsize (filesize div readsize))"
    using main_seeks by blast
next
  assume "main E filename readsize = Some (x, tr)
    \<and> e_stat E [EvConnect None] filename = Inr filesize" and "x = Finished"
  then show "seek_offsets tr = plan_offsets readsize (filesize div readsize)"
    using main_finished_seeks [of E filename readsize tr filesize]
    by (simp add: plan_offsets_def unat_div)
next
  assume ff: "fault_free E filename filesize \<and> filename \<noteq> [] \<and> 0 < readsize
    \<and> readsize \<le> maxAlloc"
  then obtain run where run: "main E filename readsize = Some (Finished, run)"
    using main_fault_free [of E filename filesize readsize] by blast
  from ff have "e_stat E [EvConnect None] filename = Inr filesize"
    by (simp add: fault_free_def)
  from main_finished_seeks [OF run this]
  have "seek_offsets run = plan_offsets readsize (filesize div readsize)"
    by (simp add: plan_offsets_def unat_div)
  with run show "\<exists>run. main E filename readsize = Some (Finished, run)
      \<and> seek_offsets run = plan_offsets readsize (filesize div readsize)"
    by blast
qed

theorem main_read_plan_witness:
  "(0 :: u64) < 4
   \<and> main (chunked 10 7) ''f'' 4 = Some (Finished, trace_of (main (chunked 10 7) ''f'' 4))
   \<and> e_stat (chunked 10 7) [EvConnect None] ''f'' = Inr 10
   \<and> fault_free (chunked 10 7) ''f'' 10 \<and> ''f'' \<noteq> [] \<and> (4 :: u64) \<le> maxAlloc
   \<and> plan_offsets 4 (10 div 4) = [0, 4]
   \<and> length (plan_offsets 4 (10 div 4)) = unat (10 :: u64) div unat (4 :: u64)
   \<and> (1 :: nat) < unat (10 :: u64) div unat (4 :: u64)
   \<and> unat (plan_offsets 4 (10 div 4) ! 1) = 1 * unat (4 :: u64)
   \<and> unat (plan_offsets 4 (10 div 4) ! 1) + unat (4 :: u64) \<le> unat (10 :: u64)
   \<and> sorted_wrt (<) (plan_offsets 4 (10 div 4))
   \<and> seek_offsets (trace_of (main (chunked 10 7) ''f'' 4)) = plan_offsets 4 (10 div 4)
   \<and> (\<exists>run. main (chunked 10 7) ''f'' 4 = Some (Finished, run)
         \<and> seek_offsets run = plan_offsets 4 (10 div 4))"
proof -
  have pos: "(0 :: u64) < 4"
    by simp
  have run: "main (chunked 10 7) ''f'' 4 = Some (Finished, trace_of (main (chunked 10 7) ''f'' 4))"
    by (simp add: small_run)
  have st: "e_stat (chunked 10 7) [EvConnect None] ''f'' = Inr 10"
    by (simp add: chunked_def)
  have ff: "fault_free (chunked 10 7) ''f'' 10"
    by (simp add: fault_free_chunked)
  have fits: "(4 :: u64) \<le> maxAlloc"
    by (simp add: maxAlloc_def)
  have plan: "plan_offsets 4 (10 div 4) = [0, 4]"
    by (simp add: plan_offsets_def upt_rec)
  note inst = main_read_plan [of 4 10 "chunked 10 7" "''f''" Finished
      "trace_of (main (chunked 10 7) ''f'' 4)"]
  from inst pos have a: "length (plan_offsets 4 (10 div 4)) = unat (10 :: u64) div unat (4 :: u64)"
    and all: "\<forall>k < unat (10 :: u64) div unat (4 :: u64).
         unat (plan_offsets 4 (10 div 4) ! k) = k * unat (4 :: u64)
         \<and> unat (plan_offsets 4 (10 div 4) ! k) + unat (4 :: u64) \<le> unat (10 :: u64)"
    and c: "sorted_wrt (<) (plan_offsets 4 (10 div 4))"
    by blast+
  have one: "(1 :: nat) < unat (10 :: u64) div unat (4 :: u64)"
    by simp
  with all have b: "unat (plan_offsets 4 (10 div 4) ! 1) = 1 * unat (4 :: u64)"
    "unat (plan_offsets 4 (10 div 4) ! 1) + unat (4 :: u64) \<le> unat (10 :: u64)"
    by blast+
  from inst run st
  have d: "seek_offsets (trace_of (main (chunked 10 7) ''f'' 4)) = plan_offsets 4 (10 div 4)"
    by blast
  from inst ff fits pos
  have e: "\<exists>run. main (chunked 10 7) ''f'' 4 = Some (Finished, run)
         \<and> seek_offsets run = plan_offsets 4 (10 div 4)"
    by blast
  from pos run st ff fits plan a one b c d e show ?thesis
    by blast
qed

text \<open>
  C9. Two runs with the same file name, file size and read size, against any two
  transports without faults (they may hand out different numbers of bytes per
  \<^verbatim>\<open>Read\<close> and show different clocks), end the same way, with the same sequence of
  offsets, the same number of bytes read, and the same total in the summary line.
\<close>

theorem runs_deterministic:
  assumes "fault_free E1 filename filesize" and "fault_free E2 filename filesize"
  shows "\<exists>x tr1 tr2. main E1 filename readsize = Some (x, tr1)
    \<and> main E2 filename readsize = Some (x, tr2)
    \<and> seek_offsets tr1 = seek_offsets tr2
    \<and> bytes_read tr1 = bytes_read tr2
    \<and> summary_totals tr1 = summary_totals tr2"
proof -
  from assms have con: "e_connect E1 [] = None" "e_connect E2 [] = None"
    and st: "e_stat E1 [EvConnect None] filename = Inr filesize"
      "e_stat E2 [EvConnect None] filename = Inr filesize"
    by (simp_all add: fault_free_def)
  consider (usage) "filename = []" | (zero) "filename \<noteq> []" "readsize = 0"
    | (run) "filename \<noteq> []" "0 < readsize" "readsize \<le> maxAlloc"
    | (big) "filename \<noteq> []" "maxAlloc < readsize"
    using word_gt_0 not_le by blast
  then show ?thesis
  proof cases
    case usage
    then show ?thesis
      by (simp add: main_def)
  next
    case zero
    then show ?thesis
      using con st by (simp add: main_def Let_def)
  next
    case run
    from main_fault_free [OF assms(1) run] obtain tr1 where
      r1: "main E1 filename readsize = Some (Finished, tr1)"
      and b1: "bytes_read tr1 = unat (filesize div readsize) * unat readsize"
      by blast
    from main_fault_free [OF assms(2) run] obtain tr2 where
      r2: "main E2 filename readsize = Some (Finished, tr2)"
      and b2: "bytes_read tr2 = unat (filesize div readsize) * unat readsize"
      by blast
    have "seek_offsets tr1 = seek_offsets tr2"
      using main_finished_seeks [OF r1 st(1)] main_finished_seeks [OF r2 st(2)] by simp
    moreover have "summary_totals tr1 = summary_totals tr2"
      using main_finished_totals [OF r1 st(1)] main_finished_totals [OF r2 st(2)] by simp
    ultimately show ?thesis
      using r1 r2 b1 b2 by (intro exI [of _ Finished] exI [of _ tr1] exI [of _ tr2]) simp
  next
    case big
    from main_over_limit [OF assms(1) big] main_over_limit [OF assms(2) big]
    show ?thesis
      by (elim exE conjE) (intro exI conjI, assumption, assumption, simp_all)
  qed
qed

theorem runs_deterministic_witness:
  "fault_free (chunked 10 7) ''f'' 10 \<and> fault_free (chunked 10 3) ''f'' 10
   \<and> (\<exists>x tr1 tr2. main (chunked 10 7) ''f'' 4 = Some (x, tr1)
        \<and> main (chunked 10 3) ''f'' 4 = Some (x, tr2)
        \<and> seek_offsets tr1 = seek_offsets tr2
        \<and> bytes_read tr1 = bytes_read tr2
        \<and> summary_totals tr1 = summary_totals tr2)"
proof -
  have ff1: "fault_free (chunked 10 7) ''f'' 10" and ff2: "fault_free (chunked 10 3) ''f'' 10"
    by (simp_all add: fault_free_chunked)
  show ?thesis
    using ff1 ff2 runs_deterministic [OF ff1 ff2, of 4] by blast
qed

text \<open>
  C6. A run that finishes ends with one summary line. Its throughput argument is
  \<^verbatim>\<open>float64(readSize*readCount*8) / dur.Seconds() / 1000000\<close>, where \<open>readCount\<close> is
  \<open>filesize div readsize\<close> and \<open>dur\<close> is \<open>t1 - t0\<close>: \<open>t0\<close> is the clock read right before the
  loop and \<open>t1\<close> the clock read right after it, all events of the loop lying between
  the two. In exact arithmetic that is \<open>totalBytes * 8 / seconds / 1000000\<close>; the
  product is the 64-bit one, which is the mathematical one for files below \<open>2^61\<close>
  bytes. For a file of 40000000 bytes, reads of 256000 bytes and a loop of exactly
  one second there are 156 reads and the value is 319.488.
\<close>

theorem summary_throughput:
  assumes "main E filename readsize = Some (Finished, tr)"
  shows "\<exists>filesize body t0 t1 mbps.
      e_stat E [EvConnect None] filename = Inr filesize
    \<and> t0 = e_now E [EvConnect None, EvStat filename (Inr filesize)]
    \<and> mainLoop E filename readsize (filesize div readsize) 0
          [EvConnect None, EvStat filename (Inr filesize), EvNow t0]
        = Some (None, [EvConnect None, EvStat filename (Inr filesize), EvNow t0] @ body)
    \<and> t1 = e_now E ([EvConnect None, EvStat filename (Inr filesize), EvNow t0] @ body)
    \<and> tr = [EvConnect None, EvStat filename (Inr filesize), EvNow t0] @ body
          @ [EvNow t1,
             EvPrintf summary_fmt
               [U (readsize * (filesize div readsize)), F (Seconds (t1 - t0)), F mbps]]
    \<and> mbps = Quot (Quot (OfUint (readsize * (filesize div readsize) * 8)) (Seconds (t1 - t0)))
                  (Const 1000000)
    \<and> fval mbps = real (unat (readsize * (filesize div readsize) * 8))
                    / (real_of_int (t1 - t0) / 1000000000) / 1000000
    \<and> (unat filesize < 2 ^ 61 \<longrightarrow>
          unat (readsize * (filesize div readsize) * 8)
            = unat readsize * (unat filesize div unat readsize) * 8)
    \<and> (filesize = 40000000 \<and> readsize = 256000 \<and> t1 - t0 = 1000000000 \<longrightarrow>
          unat (filesize div readsize) = 156 \<and> fval mbps = 319.488)"
proof -
  from main_finished [OF assms] obtain filesize body where
    st: "e_stat E [EvConnect None] filename = Inr filesize"
    and loop: "mainLoop E filename readsize (filesize div readsize) 0
          [EvConnect None, EvStat filename (Inr filesize),
           EvNow (e_now E [EvConnect None, EvStat filename (Inr filesize)])]
        = Some (None, [EvConnect None, EvStat filename (Inr filesize),
           EvNow (e_now E [EvConnect None, EvStat filename (Inr filesize)])] @ body)"
    and tr: "tr = [EvConnect None, EvStat filename (Inr filesize),
             EvNow (e_now E [EvConnect None, EvStat filename (Inr filesize)])] @ body
          @ [EvNow (e_now E ([EvConnect None, EvStat filename (Inr filesize),
               EvNow (e_now E [EvConnect None, EvStat filename (Inr filesize)])] @ body)),
             EvPrintf summary_fmt
               [U (readsize * (filesize div readsize)),
                F (Seconds (e_now E ([EvConnect None, EvStat filename (Inr filesize),
                     EvNow (e_now E [EvConnect None, EvStat filename (Inr filesize)])] @ body)
                   - e_now E [EvConnect None, EvStat filename (Inr filesize)])),
                F (Quot (Quot (OfUint (readsize * (filesize div readsize) * 8))
                     (Seconds (e_now E ([EvConnect None, EvStat filename (Inr filesize),
                          EvNow (e_now E [EvConnect None, EvStat filename (Inr filesize)])] @ body)
                        - e_now E [EvConnect None, EvStat filename (Inr filesize)])))
                   (Const 1000000))]]"
    by blast
  define t0 where "t0 = e_now E [EvConnect None, EvStat filename (Inr filesize)]"
  define t1 where "t1 = e_now E ([EvConnect None, EvStat filename (Inr filesize), EvNow t0] @ body)"
  define mbps where "mbps = Quot (Quot (OfUint (readsize * (filesize div readsize) * 8))
      (Seconds (t1 - t0))) (Const 1000000)"
  have val: "fval mbps = real (unat (readsize * (filesize div readsize) * 8))
                    / (real_of_int (t1 - t0) / 1000000000) / 1000000"
    by (simp add: mbps_def)
  have nowrap: "unat (readsize * (filesize div readsize) * 8)
            = unat readsize * (unat filesize div unat readsize) * 8"
    if small: "unat filesize < 2 ^ 61"
  proof -
    have "unat readsize * (unat filesize div unat readsize) \<le> unat filesize"
      by simp
    with small have lt: "unat readsize * (unat filesize div unat readsize) < 2 ^ 61"
      by (rule le_less_trans [rotated])
    have q: "unat (filesize div readsize) = unat filesize div unat readsize"
      by (simp add: unat_div)
    from lt have "unat readsize * unat (filesize div readsize) < 2 ^ LENGTH(64)"
      by (simp add: q)
    then have p: "unat (readsize * (filesize div readsize))
        = unat readsize * (unat filesize div unat readsize)"
      by (simp add: unat_mult_lem [THEN iffD1] q)
    from lt have "unat (readsize * (filesize div readsize)) * unat (8 :: u64) < 2 ^ LENGTH(64)"
      by (simp add: p)
    then have "unat (readsize * (filesize div readsize) * 8)
        = unat (readsize * (filesize div readsize)) * unat (8 :: u64)"
      by (rule unat_mult_lem [THEN iffD1])
    then show ?thesis
      by (simp add: p)
  qed
  have inst: "unat (filesize div readsize) = 156 \<and> fval mbps = 319.488"
    if "filesize = 40000000 \<and> readsize = 256000 \<and> t1 - t0 = 1000000000"
    using that by (simp add: mbps_def)
  have loop': "mainLoop E filename readsize (filesize div readsize) 0
          [EvConnect None, EvStat filename (Inr filesize), EvNow t0]
        = Some (None, [EvConnect None, EvStat filename (Inr filesize), EvNow t0] @ body)"
    unfolding t0_def by (rule loop)
  have tr': "tr = [EvConnect None, EvStat filename (Inr filesize), EvNow t0] @ body
          @ [EvNow t1,
             EvPrintf summary_fmt
               [U (readsize * (filesize div readsize)), F (Seconds (t1 - t0)), F mbps]]"
    unfolding mbps_def t1_def t0_def by (rule tr)
  show ?thesis
    by (intro exI [of _ filesize] exI [of _ body] exI [of _ t0] exI [of _ t1] exI [of _ mbps]
        conjI impI st t0_def loop' t1_def tr' mbps_def val)
      (use nowrap inst in blast)+
qed

theorem summary_throughput_witness:
  "\<exists>tr. main (with_clock loop_of_one_second (chunked 40000000 32768)) ''f'' 256000
          = Some (Finished, tr)
     \<and> (\<exists>body. tr = [EvConnect None, EvStat ''f'' (Inr 40000000), EvNow 0] @ body
          @ [EvNow 1000000000,
             EvPrintf summary_fmt
               [U 39936000, F (Seconds 1000000000),
                F (Quot (Quot (OfUint 319488000) (Seconds 1000000000)) (Const 1000000))]])
     \<and> fval (Quot (Quot (OfUint 319488000) (Seconds 1000000000)) (Const 1000000)) = 319.488"
proof -
  let ?E = "with_clock loop_of_one_second (chunked 40000000 32768)"
  have ff: "fault_free ?E ''f'' 40000000"
    by (simp add: fault_free_with_clock fault_free_chunked)
  have fits: "(256000 :: u64) \<le> maxAlloc"
    by (simp add: maxAlloc_def)
  from main_fault_free [OF ff _ _ fits] obtain tr where
    run: "main ?E ''f'' 256000 = Some (Finished, tr)"
    by auto
  have st: "e_stat ?E tr' ''f'' = Inr 40000000" for tr'
    by (simp add: with_clock_def chunked_def)
  have clock: "e_now ?E = loop_of_one_second"
    by (simp add: with_clock_def)
  from summary_throughput [OF run] obtain body mbps where
    tr: "tr = [EvConnect None, EvStat ''f'' (Inr 40000000),
               EvNow (loop_of_one_second [EvConnect None, EvStat ''f'' (Inr 40000000)])] @ body
          @ [EvNow (loop_of_one_second ([EvConnect None, EvStat ''f'' (Inr 40000000),
               EvNow (loop_of_one_second [EvConnect None, EvStat ''f'' (Inr 40000000)])] @ body)),
             EvPrintf summary_fmt
               [U (256000 * (40000000 div 256000)),
                F (Seconds (loop_of_one_second ([EvConnect None, EvStat ''f'' (Inr 40000000),
               EvNow (loop_of_one_second [EvConnect None, EvStat ''f'' (Inr 40000000)])] @ body)
                  - loop_of_one_second [EvConnect None, EvStat ''f'' (Inr 40000000)])),
                F mbps]]"
    and mbps: "mbps = Quot (Quot (OfUint (256000 * (40000000 div 256000) * 8))
        (Seconds (loop_of_one_second ([EvConnect None, EvStat ''f'' (Inr 40000000),
               EvNow (loop_of_one_second [EvConnect None, EvStat ''f'' (Inr 40000000)])] @ body)
                  - loop_of_one_second [EvConnect None, EvStat ''f'' (Inr 40000000)])))
        (Const 1000000)"
    unfolding st clock by auto
  have q: "(256000 :: u64) * (40000000 div 256000) = 39936000"
    "(256000 :: u64) * (40000000 div 256000) * 8 = 319488000"
    by simp_all
  have "tr = [EvConnect None, EvStat ''f'' (Inr 40000000), EvNow 0] @ body
          @ [EvNow 1000000000,
             EvPrintf summary_fmt
               [U 39936000, F (Seconds 1000000000),
                F (Quot (Quot (OfUint 319488000) (Seconds 1000000000)) (Const 1000000))]]"
    unfolding tr mbps q by (simp add: loop_of_one_second_def)
  moreover have "fval (Quot (Quot (OfUint 319488000) (Seconds 1000000000)) (Const 1000000))
      = 319.488"
    by simp
  ultimately show ?thesis
    using run by blast
qed



text \<open>
  C8, as amended. The fraction behind the percentage of a progress line is the
  offset over \<open>readCount * readSize\<close>, the bytes the plan covers, not over the file size:
  in a run that finishes, on a file of less than \<open>2^64 / 100\<close> bytes (so that
  \<^verbatim>\<open>100*offset\<close> does not wrap), the \<open>k\<close>-th percentage is
  \<open>100 * (k * readSize) / (readSize * \<lfloor>fileSize / readSize\<rfloor>)\<close>. It is
  \<open>100 * offset / fileSize\<close> when the read size divides the file size.
\<close>

theorem percent_of_planned_total:
  assumes run: "main E filename readsize = Some (Finished, tr)"
    and st: "e_stat E [EvConnect None] filename = Inr filesize"
    and small: "100 * unat filesize < 2 ^ 64"
  shows "pct_values tr
      = map (\<lambda>k. 100 * real (k * unat readsize)
                  / real (unat readsize * (unat filesize div unat readsize)))
            [0..<unat filesize div unat readsize]
    \<and> (unat readsize dvd unat filesize \<longrightarrow> pct_values tr = file_fraction_pcts filesize tr)"
proof -
  let ?q = "unat filesize div unat readsize"
  let ?line = "\<lambda>k. (readsize * word_of_nat k,
                   Quot (OfUint (100 * (readsize * word_of_nat k)))
                        (OfUint (readsize * (filesize div readsize))))"
  have pcts: "progress_pcts tr = map ?line [0..<?q]"
    by (rule main_finished_progress(1) [OF run st])
  have total: "unat (readsize * (filesize div readsize)) = unat readsize * ?q"
  proof -
    have le: "unat readsize * ?q \<le> unat filesize"
      by simp
    have "unat filesize < 2 ^ 64"
      using unsigned_less [of filesize] by simp
    with le have "unat readsize * ?q < 2 ^ 64"
      by (rule le_less_trans)
    then have "unat readsize * unat (filesize div readsize) < 2 ^ LENGTH(64)"
      by (simp add: unat_div)
    then show ?thesis
      by (simp add: unat_mult_lem [THEN iffD1] unat_div)
  qed
  have num: "unat (100 * (readsize * word_of_nat k)) = 100 * (k * unat readsize)"
    and off: "unat (readsize * word_of_nat k) = k * unat readsize"
    if k: "k < ?q" for k
  proof -
    show o: "unat (readsize * word_of_nat k :: u64) = k * unat readsize"
      by (rule plan_offset(1) [OF k])
    have "k * unat readsize \<le> unat filesize"
      using plan_offset(2) [OF k] by simp
    with small have "unat (100 :: u64) * unat (readsize * word_of_nat k) < 2 ^ LENGTH(64)"
      by (simp add: o)
    then have "unat (100 * (readsize * word_of_nat k))
        = unat (100 :: u64) * unat (readsize * word_of_nat k)"
      by (rule unat_mult_lem [THEN iffD1])
    then show "unat (100 * (readsize * word_of_nat k)) = 100 * (k * unat readsize)"
      by (simp add: o)
  qed
  have vals: "pct_values tr
      = map (\<lambda>k. 100 * real (k * unat readsize) / real (unat readsize * ?q)) [0..<?q]"
    unfolding pct_values_def pcts by (simp add: total num)
  have "pct_values tr = file_fraction_pcts filesize tr" if "unat readsize dvd unat filesize"
  proof -
    from that have "unat readsize * ?q = unat filesize"
      by simp
    then have "pct_values tr
      = map (\<lambda>k. 100 * real (k * unat readsize) / real (unat filesize)) [0..<?q]"
      using vals by simp
    moreover have "file_fraction_pcts filesize tr
      = map (\<lambda>k. 100 * real (k * unat readsize) / real (unat filesize)) [0..<?q]"
      unfolding file_fraction_pcts_def pcts map_map
    proof (rule map_cong [OF refl])
      fix k
      assume "k \<in> set [0..<?q]"
      then have k: "k < ?q"
        by simp
      show "((\<lambda>p. 100 * real (unat (fst p)) / real (unat filesize)) \<circ> ?line) k
          = 100 * real (k * unat readsize) / real (unat filesize)"
        unfolding o_def fst_conv off [OF k] by (rule refl)
    qed
    ultimately show ?thesis
      by simp
  qed
  with vals show ?thesis
    by blast
qed

theorem percent_of_planned_total_witness:
  "\<exists>tr. main (chunked 8 7) ''f'' 4 = Some (Finished, tr)
     \<and> e_stat (chunked 8 7) [EvConnect None] ''f'' = Inr 8
     \<and> 100 * unat (8 :: u64) < 2 ^ 64
     \<and> unat (4 :: u64) dvd unat (8 :: u64)
     \<and> pct_values tr = [0, 50]
     \<and> pct_values tr = file_fraction_pcts 8 tr"
proof -
  have ff: "fault_free (chunked 8 7) ''f'' 8"
    by (simp add: fault_free_chunked)
  have fits: "(4 :: u64) \<le> maxAlloc"
    by (simp add: maxAlloc_def)
  from main_fault_free [OF ff _ _ fits] obtain tr where
    run: "main (chunked 8 7) ''f'' 4 = Some (Finished, tr)"
    by auto
  have st: "e_stat (chunked 8 7) [EvConnect None] ''f'' = Inr 8"
    by (simp add: chunked_def)
  have small: "100 * unat (8 :: u64) < 2 ^ 64"
    by simp
  have plan: "[0..<2] = [0, Suc 0]"
    by (simp add: upt_rec)
  note inst = percent_of_planned_total [OF run st small]
  from inst [THEN conjunct1] have vals: "pct_values tr = [0, 50]"
    by (simp add: plan)
  from inst [THEN conjunct2] have same: "pct_values tr = file_fraction_pcts 8 tr"
    by simp
  show ?thesis
    using run st vals same by (intro exI [of _ tr] conjI) simp_all
qed

text \<open>
  With the file size as the denominator the statement fails: on a file of 10 bytes read
  4 bytes at a time the second line shows 50 percent, and \<open>100 * 4 / 10\<close> is 40.
\<close>

theorem percent_of_file_size_counterexample:
  "pct_values (trace_of (main (chunked 10 7) ''f'' 4)) = [0, 50]
   \<and> file_fraction_pcts 10 (trace_of (main (chunked 10 7) ''f'' 4)) = [0, 40]
   \<and> pct_values (trace_of (main (chunked 10 7) ''f'' 4))
       \<noteq> file_fraction_pcts 10 (trace_of (main (chunked 10 7) ''f'' 4))"
  by (simp add: small_run pct_values_def file_fraction_pcts_def progress_pcts_def
      progress_lines_def)

text \<open>
  C3, as amended. With a file name on the command line and a configured read size of
  0 the program always ends in a panic, with exit status 2, without having opened,
  sought, read or closed anything and without a summary line. The connection setup
  and the metadata lookup come first: when the connection setup fails the program
  panics with that error, having done nothing else; when the metadata lookup fails it
  panics with that error, having done these two calls; and when both succeed the
  panic is the division by zero in \<^verbatim>\<open>filesize / readSize\<close>, again after exactly these
  two calls. (Without a file name the program prints the usage line and exits with
  status 1 before anything else, whatever the read size.)
\<close>

theorem readsize_zero_panics_before_reads:
  "(filename = [] \<longrightarrow> main E filename 0 = Some (OsExit 1, [EvPrintf usage_fmt []]))
   \<and> (filename \<noteq> [] \<and> e_connect E [] = Some e \<longrightarrow>
        main E filename 0 = Some (Crashed (PanicErr e), [EvConnect (Some e)]))
   \<and> (filename \<noteq> [] \<and> e_connect E [] = None
        \<and> e_stat E [EvConnect None] filename = Inl e \<longrightarrow>
        main E filename 0
          = Some (Crashed (PanicErr e), [EvConnect None, EvStat filename (Inl e)]))
   \<and> (filename \<noteq> [] \<and> e_connect E [] = None
        \<and> e_stat E [EvConnect None] filename = Inr filesize \<longrightarrow>
        main E filename 0
          = Some (Crashed DivideByZero, [EvConnect None, EvStat filename (Inr filesize)]))
   \<and> (filename \<noteq> [] \<longrightarrow>
        (\<exists>p tr. main E filename 0 = Some (Crashed p, tr) \<and> exit_status (Crashed p) = 2
           \<and> filter is_file_io tr = [] \<and> summary_lines tr = []))"
proof (intro conjI impI)
  assume "filename = []"
  then show "main E filename 0 = Some (OsExit 1, [EvPrintf usage_fmt []])"
    by (simp add: main_def)
next
  assume "filename \<noteq> [] \<and> e_connect E [] = Some e"
  then show "main E filename 0 = Some (Crashed (PanicErr e), [EvConnect (Some e)])"
    by (simp add: main_def Let_def)
next
  assume "filename \<noteq> [] \<and> e_connect E [] = None
    \<and> e_stat E [EvConnect None] filename = Inl e"
  then show "main E filename 0
      = Some (Crashed (PanicErr e), [EvConnect None, EvStat filename (Inl e)])"
    by (simp add: main_def Let_def)
next
  assume "filename \<noteq> [] \<and> e_connect E [] = None
    \<and> e_stat E [EvConnect None] filename = Inr filesize"
  then show "main E filename 0
      = Some (Crashed DivideByZero, [EvConnect None, EvStat filename (Inr filesize)])"
    by (simp add: main_def Let_def)
next
  assume name: "filename \<noteq> []"
  show "\<exists>p tr. main E filename 0 = Some (Crashed p, tr) \<and> exit_status (Crashed p) = 2
      \<and> filter is_file_io tr = [] \<and> summary_lines tr = []"
  proof (cases "e_connect E []")
    case (Some e')
    with name show ?thesis
      by (simp add: main_def Let_def summary_lines_def)
  next
    case None
    show ?thesis
    proof (cases "e_stat E [EvConnect None] filename")
      case (Inl e')
      with name None show ?thesis
        by (simp add: main_def Let_def summary_lines_def)
    next
      case (Inr fs)
      with name None show ?thesis
        by (simp add: main_def Let_def summary_lines_def)
    qed
  qed
qed

theorem readsize_zero_panics_before_reads_witness:
  "main (chunked 10 7) [] 0 = Some (OsExit 1, [EvPrintf usage_fmt []])
   \<and> ''f'' \<noteq> []
   \<and> e_connect (connect_fails (chunked 10 7)) [] = Some (Error ''connect failed'')
   \<and> main (connect_fails (chunked 10 7)) ''f'' 0
       = Some (Crashed (PanicErr (Error ''connect failed'')),
           [EvConnect (Some (Error ''connect failed''))])
   \<and> e_connect (stat_fails (chunked 10 7)) [] = None
   \<and> e_stat (stat_fails (chunked 10 7)) [EvConnect None] ''f'' = Inl (Error ''stat failed'')
   \<and> main (stat_fails (chunked 10 7)) ''f'' 0
       = Some (Crashed (PanicErr (Error ''stat failed'')),
           [EvConnect None, EvStat ''f'' (Inl (Error ''stat failed''))])
   \<and> e_connect (chunked 10 7) [] = None
   \<and> e_stat (chunked 10 7) [EvConnect None] ''f'' = Inr 10
   \<and> main (chunked 10 7) ''f'' 0
       = Some (Crashed DivideByZero, [EvConnect None, EvStat ''f'' (Inr 10)])
   \<and> (\<exists>p tr. main (chunked 10 7) ''f'' 0 = Some (Crashed p, tr)
         \<and> exit_status (Crashed p) = 2 \<and> filter is_file_io tr = [] \<and> summary_lines tr = [])"
proof -
  have name: "''f'' \<noteq> []"
    by simp
  have c1: "e_connect (connect_fails (chunked 10 7)) [] = Some (Error ''connect failed'')"
    by (simp add: connect_fails_def)
  have c2: "e_connect (stat_fails (chunked 10 7)) [] = None"
    and s2: "e_stat (stat_fails (chunked 10 7)) [EvConnect None] ''f''
      = Inl (Error ''stat failed'')"
    by (simp_all add: stat_fails_def chunked_def)
  have c3: "e_connect (chunked 10 7) [] = None"
    and s3: "e_stat (chunked 10 7) [EvConnect None] ''f'' = Inr 10"
    by (simp_all add: chunked_def)
  from readsize_zero_panics_before_reads [of "[]" "chunked 10 7"]
  have a: "main (chunked 10 7) [] 0 = Some (OsExit 1, [EvPrintf usage_fmt []])"
    by blast
  from readsize_zero_panics_before_reads
    [of "''f''" "connect_fails (chunked 10 7)" "Error ''connect failed''"] name c1
  have b: "main (connect_fails (chunked 10 7)) ''f'' 0
       = Some (Crashed (PanicErr (Error ''connect failed'')),
           [EvConnect (Some (Error ''connect failed''))])"
    by blast
  from readsize_zero_panics_before_reads
    [of "''f''" "stat_fails (chunked 10 7)" "Error ''stat failed''"] name c2 s2
  have c: "main (stat_fails (chunked 10 7)) ''f'' 0
       = Some (Crashed (PanicErr (Error ''stat failed'')),
           [EvConnect None, EvStat ''f'' (Inl (Error ''stat failed''))])"
    by blast
  from readsize_zero_panics_before_reads [of "''f''" "chunked 10 7" _ 10] name c3 s3
  have d: "main (chunked 10 7) ''f'' 0
       = Some (Crashed DivideByZero, [EvConnect None, EvStat ''f'' (Inr 10)])"
    and e: "\<exists>p tr. main (chunked 10 7) ''f'' 0 = Some (Crashed p, tr)
         \<and> exit_status (Crashed p) = 2 \<and> filter is_file_io tr = [] \<and> summary_lines tr = []"
    by blast+
  from a name c1 b c2 s2 c c3 s3 d e show ?thesis
    by blast
qed

text \<open>
  The read size is not checked before the first I/O: the run below has set up the
  connection and looked up the file size by the time it fails, and it fails with a
  division by zero.
\<close>

theorem readsize_zero_counterexample:
  "main (chunked 10 7) ''f'' 0
     = Some (Crashed DivideByZero, [EvConnect None, EvStat ''f'' (Inr 10)])
   \<and> filter is_io (trace_of (main (chunked 10 7) ''f'' 0))
     = [EvConnect None, EvStat ''f'' (Inr 10)]"
  by (simp add: main_def chunked_def)

text \<open>
  C5. The third \<^verbatim>\<open>Open\<close> of a run fails (file of 40 bytes, reads of 10 bytes). The
  run stops there, without a summary line and with exit status 2, but what comes out is
  the nil dereference of \<^verbatim>\<open>defer f.Close()\<close>, not the error \<^verbatim>\<open>Open\<close> returned: the
  test \<^verbatim>\<open>if err != nil { return err }\<close> behind the \<^verbatim>\<open>defer\<close> is never reached. (A
  failing \<^verbatim>\<open>Read\<close> does come out as the panic value, see \<open>third_read_fails_run\<close>.)
\<close>

theorem third_open_fails_run:
  "main (open_fails_after 2 (chunked 40 100)) ''f'' 10 =
     Some (Crashed NilDereference,
       [EvConnect None, EvStat ''f'' (Inr 40), EvNow 2000000,
        EvNow 3000000, EvOpen ''f'' (Some 1) None, EvSeek 1 0 None, EvRead 1 10 10 None,
        EvNow 7000000,
        EvPrintf progress_fmt [U 10, U 0, F (Seconds 4000000), F (Quot (OfUint 0) (OfUint 40))],
        EvClose 1,
        EvNow 10000000, EvOpen ''f'' (Some 1) None, EvSeek 1 10 None, EvRead 1 10 10 None,
        EvNow 14000000,
        EvPrintf progress_fmt
          [U 10, U 10, F (Seconds 4000000), F (Quot (OfUint 1000) (OfUint 40))],
        EvClose 1,
        EvNow 17000000, EvOpen ''f'' None (Some (Error ''open failed''))])"
  by code_simp

end
